theory Spec2Isabelle
  imports Main "HOL-Library.Char_ord" "HOL-Library.List_Lexorder" "HOL-Library.Multiset"
begin

section \<open>Python values, model instances and exceptions\<close>

text \<open>
  The values that flow through \<^verbatim>\<open>sentry/db/models/manager.py\<close>: \<^verbatim>\<open>None\<close>, integers
  (unbounded, as Python's), text, and Django model instances. A model instance carries
  the name of its class, its primary-key attribute (name and value, read by
  \<^verbatim>\<open>instance.pk\<close>), its other attributes as an association list, and the database alias
  of \<^verbatim>\<open>instance._state.db\<close>. \<open>inst_id\<close> stands for the identity under which the manager's
  \<^verbatim>\<open>WeakKeyDictionary\<close> finds the instance.
\<close>

datatype scalar = SNone | SInt int | SStr string

record model_instance =
  inst_id :: nat
  inst_class :: string
  inst_pk_attname :: string
  inst_pk :: scalar
  inst_attrs :: "(string \<times> scalar) list"
  inst_db :: "string option"

datatype pyval = PScalar scalar | PInst model_instance

type_synonym kwargs = "(string \<times> pyval) list"

datatype pyerror =
    ObjectDoesNotExist
  | MultipleObjectsReturned
  | ValueError string
  | TypeError string
  | AttributeError string
  | FieldDoesNotExist string
  | StopIteration
  | BackendError string

text \<open>
  Every exception above derives from Python's \<^verbatim>\<open>Exception\<close>, so \<^verbatim>\<open>except Exception\<close> catches
  each of them. \<open>BackendError\<close> stands for whatever the cache backend raises.
\<close>

text \<open>Truthiness of a scalar, as \<^verbatim>\<open>if instance.pk:\<close> reads it.\<close>

fun truthy :: "scalar \<Rightarrow> bool" where
  "truthy SNone = False"
| "truthy (SInt n) = (n \<noteq> 0)"
| "truthy (SStr s) = (s \<noteq> [])"

subsection \<open>Text of a value\<close>

definition digit_char :: "nat \<Rightarrow> char" where
  "digit_char d = char_of (48 + d)"

fun show_nat :: "nat \<Rightarrow> string" where
  "show_nat n = (if n < 10 then [digit_char n] else show_nat (n div 10) @ [digit_char (n mod 10)])"

declare show_nat.simps [simp del]

definition show_int :: "int \<Rightarrow> string" where
  "show_int i = (if i < 0 then CHR ''-'' # show_nat (nat (- i)) else show_nat (nat i))"

text \<open>\<^verbatim>\<open>six.text_type(value)\<close> and \<^verbatim>\<open>smart_text(value)\<close> on the scalars above.\<close>

fun text_type :: "scalar \<Rightarrow> string" where
  "text_type SNone = ''None''"
| "text_type (SInt i) = show_int i"
| "text_type (SStr s) = s"

definition smart_text :: "scalar \<Rightarrow> string" where
  "smart_text v = text_type v"

subsection \<open>Digits\<close>

text \<open>
  Text is a list of characters, each a code point below 256. \<^verbatim>\<open>s.isdigit()\<close> holds for
  non-empty text whose every character is a digit: a decimal digit \<^verbatim>\<open>0\<close> to \<^verbatim>\<open>9\<close>, or one
  of the superscripts two, three and one (code points \<open>0xB2\<close>, \<open>0xB3\<close>, \<open>0xB9\<close>).
\<close>

definition is_decimal_char :: "char \<Rightarrow> bool" where
  "is_decimal_char c = (CHR ''0'' \<le> c \<and> c \<le> CHR ''9'')"

definition is_digit_char :: "char \<Rightarrow> bool" where
  "is_digit_char c = (is_decimal_char c \<or> c = CHR 0xB2 \<or> c = CHR 0xB3 \<or> c = CHR 0xB9)"

definition isdigit :: "string \<Rightarrow> bool" where
  "isdigit s = (s \<noteq> [] \<and> list_all is_digit_char s)"

definition digit_val :: "char \<Rightarrow> nat" where
  "digit_val c = of_char c - 48"

definition nat_of_digits :: "string \<Rightarrow> nat" where
  "nat_of_digits s = foldl (\<lambda>acc c. 10 * acc + digit_val c) 0 s"

text \<open>The white space that \<^verbatim>\<open>int\<close> drops around a numeral: tab to carriage return, the
  space, and the code points \<open>0x85\<close> and \<open>0xA0\<close>.\<close>

definition is_space_char :: "char \<Rightarrow> bool" where
  "is_space_char c = (c = CHR '' '' \<or> c = CHR 0x09 \<or> c = CHR 0x0A \<or> c = CHR 0x0B
                      \<or> c = CHR 0x0C \<or> c = CHR 0x0D \<or> c = CHR 0x85 \<or> c = CHR 0xA0)"

definition strip :: "string \<Rightarrow> string" where
  "strip s = rev (dropWhile is_space_char (rev (dropWhile is_space_char s)))"

text \<open>The digits of a numeral may be grouped by single underscores: every underscore
  stands between two decimal digits.\<close>

fun grouped_digits :: "string \<Rightarrow> bool" where
  "grouped_digits [] = False"
| "grouped_digits [c] = is_decimal_char c"
| "grouped_digits (c # d # cs) =
     (is_decimal_char c \<and>
      (if d = CHR ''_'' then grouped_digits cs else grouped_digits (d # cs)))"

definition numeral_value :: "string \<Rightarrow> pyerror + int" where
  "numeral_value s =
     (if grouped_digits s then Inr (int (nat_of_digits (filter (\<lambda>c. c \<noteq> CHR ''_'') s)))
      else Inl (ValueError ''invalid literal for int()''))"

text \<open>
  \<^verbatim>\<open>int(value)\<close>: an integer is itself; text is stripped of surrounding white space and
  read as an optionally signed decimal numeral, \<^verbatim>\<open>ValueError\<close> otherwise; \<^verbatim>\<open>None\<close> is a
  \<^verbatim>\<open>TypeError\<close>. The messages of the two exceptions are shortened.
\<close>

definition int_of_text :: "string \<Rightarrow> pyerror + int" where
  "int_of_text s =
     (case strip s of
        [] \<Rightarrow> Inl (ValueError ''invalid literal for int()'')
      | c # cs \<Rightarrow>
          if c = CHR ''-'' then
            (case numeral_value cs of Inl e \<Rightarrow> Inl e | Inr n \<Rightarrow> Inr (- n))
          else if c = CHR ''+'' then numeral_value cs
          else numeral_value (c # cs))"

fun py_int :: "scalar \<Rightarrow> pyerror + int" where
  "py_int (SInt i) = Inr i"
| "py_int (SStr s) = int_of_text s"
| "py_int SNone = Inl (TypeError ''int() argument must be a string or a number'')"

section \<open>KeyCodec: \<^verbatim>\<open>make_key\<close>\<close>

text \<open>What the code reads of a model class: \<^verbatim>\<open>__name__\<close>, \<^verbatim>\<open>_meta.pk.name\<close>, and
  \<^verbatim>\<open>_meta.get_field(name).attname\<close> as an association list from field name to attribute
  name.\<close>

record model_meta =
  model_name :: string
  pk_name :: string
  field_attnames :: "(string \<times> string) list"

definition prep_value :: "pyval \<Rightarrow> scalar" where
  "prep_value value = (case value of PInst i \<Rightarrow> inst_pk i | PScalar s \<Rightarrow> SStr (text_type s))"

definition prep_key :: "model_meta \<Rightarrow> string \<Rightarrow> string" where
  "prep_key model key = (if key = ''pk'' then pk_name model else key)"

fun join :: "string \<Rightarrow> string list \<Rightarrow> string" where
  "join sep [] = []"
| "join sep [x] = x"
| "join sep (x # y # ys) = x @ sep @ join sep (y # ys)"

definition kwargs_bit :: "model_meta \<Rightarrow> string \<times> pyval \<Rightarrow> string" where
  "kwargs_bit model kv =
     (let k = prep_key model (fst kv); v = smart_text (prep_value (snd kv)) in k @ ''='' @ v)"

text \<open>
  \<^verbatim>\<open>md5_text(...).hexdigest()\<close> lives in \<^verbatim>\<open>sentry.utils.hashlib\<close>, outside the files at
  hand: it is the parameter \<open>md5\<close>. A \<^verbatim>\<open>dict\<close> is an association list with distinct keys,
  in iteration order; \<^verbatim>\<open>sorted\<close> on its items never compares two values, the keys being
  distinct, so it sorts on the key.
\<close>

definition make_key :: "(string \<Rightarrow> string) \<Rightarrow> model_meta \<Rightarrow> string \<Rightarrow> kwargs \<Rightarrow> string" where
  "make_key md5 model prefix kwargs =
     (let kwargs_bits = map (kwargs_bit model) (sort_key fst kwargs);
          joined = join '':'' kwargs_bits
      in prefix @ '':'' @ model_name model @ '':'' @ md5 joined)"

section \<open>The cache backend, the backing store and the process state\<close>

text \<open>
  The calls that leave the manager are recorded in a trace, in the order they are made:
  reads, writes and deletions on the cache backend, lookups on the backing store, and
  the records handed to \<^verbatim>\<open>logger.error\<close>.
\<close>

datatype event =
    CacheGet string "string option"
  | CacheSet string pyval nat "string option"
  | CacheDelete string "string option"
  | StoreGet kwargs
  | LogException pyerror
  | LogInvalidValue pyval

text \<open>
  A manager is configured with its model, \<^verbatim>\<open>cache_fields\<close>, \<^verbatim>\<open>cache_ttl\<close> and
  \<^verbatim>\<open>cache_version\<close>. Its collaborators are parameters: the hash, the backing store's
  \<^verbatim>\<open>get\<close> (which raises \<^verbatim>\<open>ObjectDoesNotExist\<close> when no row matches), the exception the
  cache backend raises on a given call if it raises one, \<^verbatim>\<open>settings.DEBUG\<close>,
  \<^verbatim>\<open>router.db_for_read\<close>, \<^verbatim>\<open>BoundedBigIntegerField.MAX_VALUE\<close> and
  \<^verbatim>\<open>normalize_event_id\<close>.
\<close>

record manager =
  mgr_model :: model_meta
  cache_fields :: "string list"
  cache_ttl :: nat
  cache_version :: "string option"

record env =
  md5_text :: "string \<Rightarrow> string"
  store_get :: "kwargs \<Rightarrow> pyerror + model_instance"
  cache_fault :: "event \<Rightarrow> pyerror option"
  DEBUG :: bool
  db_for_read :: "kwargs \<Rightarrow> string option"
  MAX_VALUE :: int
  normalize_event_id :: "string \<Rightarrow> string option"

text \<open>
  The state: the content of the cache backend under (key, version), the manager's
  tracked state (\<^verbatim>\<open>self.__cache\<close>) from instance identity to the last snapshot of the
  cacheable fields, and the trace.
\<close>

record world =
  cache :: "string \<times> string option \<Rightarrow> pyval option"
  tracked :: "nat \<Rightarrow> (string \<times> scalar) list option"
  trace :: "event list"

definition emit :: "event \<Rightarrow> world \<Rightarrow> world" where
  "emit ev w = w\<lparr>trace := trace w @ [ev]\<rparr>"

text \<open>\<^verbatim>\<open>cache.get\<close> answers \<^verbatim>\<open>None\<close> for an absent key and for a stored \<^verbatim>\<open>None\<close> alike.\<close>

definition cache_get :: "env \<Rightarrow> string \<Rightarrow> string option \<Rightarrow> world \<Rightarrow> (pyerror + pyval option) \<times> world" where
  "cache_get env key version w =
     (let ev = CacheGet key version; w' = emit ev w
      in case cache_fault env ev of
           Some e \<Rightarrow> (Inl e, w')
         | None \<Rightarrow>
             (case cache w (key, version) of
                None \<Rightarrow> (Inr None, w')
              | Some v \<Rightarrow> if v = PScalar SNone then (Inr None, w') else (Inr (Some v), w')))"

definition cache_set :: "env \<Rightarrow> string \<Rightarrow> pyval \<Rightarrow> nat \<Rightarrow> string option \<Rightarrow> world \<Rightarrow> (pyerror + unit) \<times> world" where
  "cache_set env key val timeout version w =
     (let ev = CacheSet key val timeout version; w' = emit ev w
      in case cache_fault env ev of
           Some e \<Rightarrow> (Inl e, w')
         | None \<Rightarrow> (Inr (), w'\<lparr>cache := (cache w')((key, version) \<mapsto> val)\<rparr>))"

definition cache_delete :: "env \<Rightarrow> string \<Rightarrow> string option \<Rightarrow> world \<Rightarrow> (pyerror + unit) \<times> world" where
  "cache_delete env key version w =
     (let ev = CacheDelete key version; w' = emit ev w
      in case cache_fault env ev of
           Some e \<Rightarrow> (Inl e, w')
         | None \<Rightarrow> (Inr (), w'\<lparr>cache := (cache w')((key, version) := None)\<rparr>))"

section \<open>CachingRepository: \<^verbatim>\<open>BaseManager\<close>\<close>

definition get_lookup_cache_key :: "manager \<Rightarrow> env \<Rightarrow> kwargs \<Rightarrow> string" where
  "get_lookup_cache_key mgr env kwargs = make_key (md5_text env) (mgr_model mgr) ''modelcache'' kwargs"

definition getattr :: "model_instance \<Rightarrow> string \<Rightarrow> pyerror + scalar" where
  "getattr i a =
     (if a = inst_pk_attname i then Inr (inst_pk i)
      else case map_of (inst_attrs i) a of
             None \<Rightarrow> Inl (AttributeError a)
           | Some v \<Rightarrow> Inr v)"

definition value_for_field :: "manager \<Rightarrow> model_instance \<Rightarrow> string \<Rightarrow> pyerror + scalar" where
  "value_for_field mgr i key =
     (if key = ''pk'' then Inr (inst_pk i)
      else case map_of (field_attnames (mgr_model mgr)) key of
             None \<Rightarrow> Inl (FieldDoesNotExist key)
           | Some attname \<Rightarrow> getattr i attname)"

text \<open>The dictionary comprehension of \<^verbatim>\<open>__cache_state\<close>, field by field.\<close>

fun field_values :: "manager \<Rightarrow> model_instance \<Rightarrow> string list \<Rightarrow> pyerror + (string \<times> scalar) list" where
  "field_values mgr i [] = Inr []"
| "field_values mgr i (f # fs) =
     (case value_for_field mgr i f of
        Inl e \<Rightarrow> Inl e
      | Inr v \<Rightarrow>
          (case field_values mgr i fs of
             Inl e \<Rightarrow> Inl e
           | Inr snap \<Rightarrow> Inr ((f, v) # snap)))"

definition cache_state :: "manager \<Rightarrow> model_instance \<Rightarrow> world \<Rightarrow> (pyerror + unit) \<times> world" where
  "cache_state mgr i w =
     (if truthy (inst_pk i) then
        (case field_values mgr i (cache_fields mgr) of
           Inl e \<Rightarrow> (Inl e, w)
         | Inr snap \<Rightarrow> (Inr (), w\<lparr>tracked := (tracked w)(inst_id i \<mapsto> snap)\<rparr>))
      else (Inr (), w))"

definition post_init :: "manager \<Rightarrow> model_instance \<Rightarrow> world \<Rightarrow> (pyerror + unit) \<times> world" where
  "post_init mgr i w = cache_state mgr i w"

text \<open>The first loop of \<^verbatim>\<open>__post_save\<close>: one pointer entry per cacheable field that is
  not the primary key.\<close>

fun store_pointers :: "manager \<Rightarrow> env \<Rightarrow> model_instance \<Rightarrow> string list \<Rightarrow> world \<Rightarrow> (pyerror + unit) \<times> world" where
  "store_pointers mgr env i [] w = (Inr (), w)"
| "store_pointers mgr env i (key # keys) w =
     (if key = ''pk'' \<or> key = pk_name (mgr_model mgr) then store_pointers mgr env i keys w
      else case value_for_field mgr i key of
             Inl e \<Rightarrow> (Inl e, w)
           | Inr v \<Rightarrow>
               (case cache_set env (get_lookup_cache_key mgr env [(key, PScalar v)])
                       (PScalar (inst_pk i)) (cache_ttl mgr) (cache_version mgr) w of
                  (Inl e, w') \<Rightarrow> (Inl e, w')
                | (Inr u, w') \<Rightarrow> store_pointers mgr env i keys w'))"

text \<open>The value entry, written with \<^verbatim>\<open>_state.db\<close> cleared, inside \<^verbatim>\<open>try\<close> /
  \<^verbatim>\<open>except Exception\<close>: the exception is logged and the hook goes on.\<close>

definition store_object :: "manager \<Rightarrow> env \<Rightarrow> model_instance \<Rightarrow> world \<Rightarrow> world" where
  "store_object mgr env i w =
     (case cache_set env (get_lookup_cache_key mgr env [(pk_name (mgr_model mgr), PScalar (inst_pk i))])
             (PInst (i\<lparr>inst_db := None\<rparr>)) (cache_ttl mgr) (cache_version mgr) w of
        (Inl e, w') \<Rightarrow> emit (LogException e) w'
      | (Inr u, w') \<Rightarrow> w')"

text \<open>The last loop of \<^verbatim>\<open>__post_save\<close>, over the tracked snapshot \<open>snap\<close> of the instance.\<close>

fun kill_stale :: "manager \<Rightarrow> env \<Rightarrow> model_instance \<Rightarrow> (string \<times> scalar) list \<Rightarrow> string list \<Rightarrow> world \<Rightarrow> (pyerror + unit) \<times> world" where
  "kill_stale mgr env i snap [] w = (Inr (), w)"
| "kill_stale mgr env i snap (key # keys) w =
     (case map_of snap key of
        None \<Rightarrow> kill_stale mgr env i snap keys w
      | Some v \<Rightarrow>
          (case value_for_field mgr i key of
             Inl e \<Rightarrow> (Inl e, w)
           | Inr current_value \<Rightarrow>
               if v \<noteq> current_value then
                 (case cache_delete env (get_lookup_cache_key mgr env [(key, PScalar v)]) (cache_version mgr) w of
                    (Inl e, w') \<Rightarrow> (Inl e, w')
                  | (Inr u, w') \<Rightarrow> kill_stale mgr env i snap keys w')
               else kill_stale mgr env i snap keys w))"

definition post_save :: "manager \<Rightarrow> env \<Rightarrow> model_instance \<Rightarrow> world \<Rightarrow> (pyerror + unit) \<times> world" where
  "post_save mgr env i w =
     (case store_pointers mgr env i (cache_fields mgr) w of
        (Inl e, w1) \<Rightarrow> (Inl e, w1)
      | (Inr u, w1) \<Rightarrow>
          (let w2 = store_object mgr env i w1
           in case (case tracked w2 (inst_id i) of
                      None \<Rightarrow> (Inr (), w2)
                    | Some snap \<Rightarrow> kill_stale mgr env i snap (cache_fields mgr) w2) of
                (Inl e, w3) \<Rightarrow> (Inl e, w3)
              | (Inr u, w3) \<Rightarrow> cache_state mgr i w3))"

fun remove_pointers :: "manager \<Rightarrow> env \<Rightarrow> model_instance \<Rightarrow> string list \<Rightarrow> world \<Rightarrow> (pyerror + unit) \<times> world" where
  "remove_pointers mgr env i [] w = (Inr (), w)"
| "remove_pointers mgr env i (key # keys) w =
     (if key = ''pk'' \<or> key = pk_name (mgr_model mgr) then remove_pointers mgr env i keys w
      else case value_for_field mgr i key of
             Inl e \<Rightarrow> (Inl e, w)
           | Inr v \<Rightarrow>
               (case cache_delete env (get_lookup_cache_key mgr env [(key, PScalar v)]) (cache_version mgr) w of
                  (Inl e, w') \<Rightarrow> (Inl e, w')
                | (Inr u, w') \<Rightarrow> remove_pointers mgr env i keys w'))"

definition post_delete :: "manager \<Rightarrow> env \<Rightarrow> model_instance \<Rightarrow> world \<Rightarrow> (pyerror + unit) \<times> world" where
  "post_delete mgr env i w =
     (case remove_pointers mgr env i (cache_fields mgr) w of
        (Inl e, w1) \<Rightarrow> (Inl e, w1)
      | (Inr u, w1) \<Rightarrow>
          cache_delete env (get_lookup_cache_key mgr env [(pk_name (mgr_model mgr), PScalar (inst_pk i))])
            (cache_version mgr) w1)"

text \<open>
  \<^verbatim>\<open>self.get(**kwargs)\<close>: the backing store's lookup. The store builds the instance it
  returns, which fires \<^verbatim>\<open>post_init\<close>; \<^verbatim>\<open>__class_prepared\<close> connects \<^verbatim>\<open>__post_init\<close> to it
  when \<^verbatim>\<open>cache_fields\<close> is not empty.
\<close>

definition manager_get :: "manager \<Rightarrow> env \<Rightarrow> kwargs \<Rightarrow> world \<Rightarrow> (pyerror + model_instance) \<times> world" where
  "manager_get mgr env kwargs w =
     (let w1 = emit (StoreGet kwargs) w
      in case store_get env kwargs of
           Inl e \<Rightarrow> (Inl e, w1)
         | Inr r \<Rightarrow>
             if cache_fields mgr = [] then (Inr r, w1)
             else (case post_init mgr r w1 of
                     (Inl e, w2) \<Rightarrow> (Inl e, w2)
                   | (Inr u, w2) \<Rightarrow> (Inr r, w2)))"

definition endswith :: "string \<Rightarrow> string \<Rightarrow> bool" where
  "endswith s suffix = (length suffix \<le> length s \<and> drop (length s - length suffix) s = suffix)"

text \<open>\<^verbatim>\<open>s.split(sep, 1)[0]\<close>: what stands before the first occurrence of \<open>sep\<close>.\<close>

fun before_first :: "string \<Rightarrow> string \<Rightarrow> string" where
  "before_first sep [] = []"
| "before_first sep (c # cs) = (if take (length sep) (c # cs) = sep then [] else c # before_first sep cs)"

text \<open>The two branches of \<^verbatim>\<open>get_from_cache\<close> that distrust a cache hit.\<close>

definition invalid_type :: "manager \<Rightarrow> env \<Rightarrow> kwargs \<Rightarrow> pyval \<Rightarrow> world \<Rightarrow> (pyerror + model_instance) \<times> world" where
  "invalid_type mgr env kwargs retval w =
     (if DEBUG env then (Inl (ValueError ''Unexpected value type returned from cache''), w)
      else manager_get mgr env kwargs (emit (LogInvalidValue retval) w))"

definition invalid_value :: "manager \<Rightarrow> env \<Rightarrow> kwargs \<Rightarrow> pyval \<Rightarrow> world \<Rightarrow> (pyerror + model_instance) \<times> world" where
  "invalid_value mgr env kwargs retval w =
     (if DEBUG env then (Inl (ValueError ''Unexpected value returned from cache''), w)
      else manager_get mgr env kwargs (emit (LogInvalidValue retval) w))"

text \<open>
  How \<^verbatim>\<open>get_from_cache\<close> reads its single keyword argument: \<^verbatim>\<open>pk\<close> is the primary-key
  field, a trailing \<^verbatim>\<open>__exact\<close> is dropped, and a model instance counts as its primary key.
\<close>

definition lookup_field :: "manager \<Rightarrow> string \<Rightarrow> string" where
  "lookup_field mgr key0 =
     (let key = (if key0 = ''pk'' then pk_name (mgr_model mgr) else key0)
      in if endswith key ''__exact'' then before_first ''__exact'' key else key)"

definition lookup_value :: "pyval \<Rightarrow> scalar" where
  "lookup_value value0 = (case value0 of PInst vi \<Rightarrow> inst_pk vi | PScalar s \<Rightarrow> s)"

text \<open>
  \<^verbatim>\<open>get_from_cache\<close> calls itself on a hit under a secondary key. The first argument
  bounds the depth of the calls; \<open>None\<close> is a call that did not return within it.
\<close>

fun get_from_cache :: "nat \<Rightarrow> manager \<Rightarrow> env \<Rightarrow> kwargs \<Rightarrow> world \<Rightarrow> ((pyerror + model_instance) \<times> world) option" where
  "get_from_cache 0 mgr env kwargs w = None"
| "get_from_cache (Suc n) mgr env kwargs w =
     (if cache_fields mgr = [] \<or> length kwargs > 1 then Some (manager_get mgr env kwargs w)
      else case kwargs of
        [] \<Rightarrow> Some (Inl StopIteration, w)
      | (key0, value0) # rest \<Rightarrow>
          (let pkn = pk_name (mgr_model mgr);
               key = lookup_field mgr key0;
               v = lookup_value value0
           in if key \<in> set (cache_fields mgr) \<or> key = pkn then
                (case cache_get env (get_lookup_cache_key mgr env [(key, PScalar v)]) (cache_version mgr) w of
                   (Inl e, w1) \<Rightarrow> Some (Inl e, w1)
                 | (Inr None, w1) \<Rightarrow>
                     Some (case manager_get mgr env kwargs w1 of
                             (Inl e, w2) \<Rightarrow> (Inl e, w2)
                           | (Inr result, w2) \<Rightarrow>
                               (case post_save mgr env result w2 of
                                  (Inl e, w3) \<Rightarrow> (Inl e, w3)
                                | (Inr u, w3) \<Rightarrow> (Inr result, w3)))
                 | (Inr (Some retval), w1) \<Rightarrow>
                     if key \<noteq> pkn then get_from_cache n mgr env [(pkn, retval)] w1
                     else (case retval of
                             PScalar s \<Rightarrow> Some (invalid_type mgr env kwargs retval w1)
                           | PInst r \<Rightarrow>
                               if inst_class r \<noteq> model_name (mgr_model mgr)
                               then Some (invalid_type mgr env kwargs retval w1)
                               else (case py_int v of
                                       Inl e \<Rightarrow> Some (Inl e, w1)
                                     | Inr n \<Rightarrow>
                                         if SInt n \<noteq> inst_pk r
                                         then Some (invalid_value mgr env kwargs retval w1)
                                         else Some (Inr (r\<lparr>inst_db := db_for_read env kwargs\<rparr>), w1))))
              else Some (manager_get mgr env kwargs w)))"

declare get_from_cache.simps [simp del]

definition uncache_object :: "manager \<Rightarrow> env \<Rightarrow> scalar \<Rightarrow> world \<Rightarrow> (pyerror + unit) \<times> world" where
  "uncache_object mgr env instance_id w =
     cache_delete env (get_lookup_cache_key mgr env [(pk_name (mgr_model mgr), PScalar instance_id)])
       (cache_version mgr) w"

section \<open>DualBackendEventLookup: \<^verbatim>\<open>EventManager.from_event_id\<close>\<close>

text \<open>\<^verbatim>\<open>try: event = self.get(...)\<close> / \<^verbatim>\<open>except ObjectDoesNotExist: pass\<close>: the event the
  store found, the value \<open>event\<close> had before when no row matches, any other exception
  raised.\<close>

definition try_get :: "manager \<Rightarrow> env \<Rightarrow> kwargs \<Rightarrow> model_instance option \<Rightarrow> world \<Rightarrow> (pyerror + model_instance option) \<times> world" where
  "try_get mgr env kwargs event w =
     (case manager_get mgr env kwargs w of
        (Inr r, w') \<Rightarrow> (Inr (Some r), w')
      | (Inl e, w') \<Rightarrow> if e = ObjectDoesNotExist then (Inr event, w') else (Inl e, w'))"

definition pk_kwargs :: "string \<Rightarrow> scalar \<Rightarrow> kwargs" where
  "pk_kwargs id_or_event_id project_id =
     (if project_id = SNone then [(''id'', PScalar (SStr id_or_event_id))]
      else [(''id'', PScalar (SStr id_or_event_id)), (''project_id'', PScalar project_id)])"

definition event_id_truthy :: "string option \<Rightarrow> bool" where
  "event_id_truthy event_id = (case event_id of None \<Rightarrow> False | Some s \<Rightarrow> s \<noteq> [])"

text \<open>
  \<^verbatim>\<open>id_or_event_id.isdigit() and int(id_or_event_id) <= MAX_VALUE\<close> stands outside the
  \<^verbatim>\<open>try\<close>: an exception of \<^verbatim>\<open>int\<close> leaves \<^verbatim>\<open>from_event_id\<close>.
\<close>

definition from_event_id :: "manager \<Rightarrow> env \<Rightarrow> string \<Rightarrow> scalar \<Rightarrow> world \<Rightarrow> (pyerror + model_instance option) \<times> world" where
  "from_event_id mgr env id_or_event_id project_id w =
     (case (if isdigit id_or_event_id then
              (case py_int (SStr id_or_event_id) of
                 Inl e \<Rightarrow> (Inl e, w)
               | Inr n \<Rightarrow>
                   if n \<le> MAX_VALUE env
                   then try_get mgr env (pk_kwargs id_or_event_id project_id) None w
                   else (Inr None, w))
            else (Inr None, w)) of
        (Inl e, w1) \<Rightarrow> (Inl e, w1)
      | (Inr event, w1) \<Rightarrow>
          (let event_id = normalize_event_id env id_or_event_id
           in if project_id \<noteq> SNone \<and> event = None \<and> event_id_truthy event_id then
                try_get mgr env [(''event_id'', PScalar (SStr (the event_id))),
                                 (''project_id'', PScalar project_id)] event w1
              else (Inr event, w1)))"

section \<open>AnalyticsEventStore: \<^verbatim>\<open>SnubaEventStorage\<close>\<close>

text \<open>
  A Snuba condition is a triple \<^verbatim>\<open>[column, operator, value]\<close> or a list of conditions. The
  reference event is read through \<^verbatim>\<open>timestamp\<close>, \<^verbatim>\<open>datetime\<close> and \<^verbatim>\<open>event_id\<close>; instants are
  seconds since the epoch, so \<^verbatim>\<open>datetime.utcfromtimestamp(0)\<close> is \<open>0\<close>.
\<close>

datatype condition = Cond string string scalar | CondList "condition list"

record snuba_event =
  ev_timestamp :: scalar
  ev_datetime :: int
  ev_event_id :: scalar

record query =
  q_selected_columns :: "string list"
  q_limit :: nat
  q_referrer :: string
  q_start :: int
  q_end :: int
  q_conditions :: "condition list"
  q_filter_keys :: "(string \<times> int list) list option"
  q_orderby :: "string list"

record row =
  row_project_id :: scalar
  row_event_id :: scalar

text \<open>The answer of \<^verbatim>\<open>snuba.raw_query\<close>: whether it has an \<^verbatim>\<open>'error'\<close> key, and its
  \<^verbatim>\<open>'data'\<close> rows.\<close>

record snuba_result =
  res_error :: "string option"
  res_data :: "row list"

text \<open>\<^verbatim>\<open>snuba.raw_query\<close> and \<^verbatim>\<open>datetime.utcnow()\<close> are parameters.\<close>

record snuba_env =
  raw_query :: "query \<Rightarrow> snuba_result"
  utcnow :: int

text \<open>
  The \<^verbatim>\<open>conditions\<close> argument is a reference to a list that the caller may still hold,
  and \<^verbatim>\<open>extend\<close> changes that list in place: lists live in a heap, addressed by their
  index, and an argument is \<open>None\<close> or an address.
\<close>

type_synonym heap = "condition list list"

definition alloc :: "condition list \<Rightarrow> heap \<Rightarrow> nat \<times> heap" where
  "alloc xs h = (length h, h @ [xs])"

text \<open>\<^verbatim>\<open>conditions or []\<close>: the argument when it is a non-empty list, a new empty list
  otherwise.\<close>

definition conditions_or_new :: "nat option \<Rightarrow> heap \<Rightarrow> nat \<times> heap" where
  "conditions_or_new conditions h =
     (case conditions of
        None \<Rightarrow> alloc [] h
      | Some a \<Rightarrow> if h ! a = [] then alloc [] h else (a, h))"

definition extend_in_place :: "nat \<Rightarrow> condition list \<Rightarrow> heap \<Rightarrow> heap" where
  "extend_in_place a xs h = h[a := h ! a @ xs]"

definition get_next_or_prev_event_id ::
  "snuba_env \<Rightarrow> int \<Rightarrow> int \<Rightarrow> condition list \<Rightarrow> (string \<times> int list) list option \<Rightarrow> string list
     \<Rightarrow> (string \<times> string) option" where
  "get_next_or_prev_event_id senv start end' conditions filter_keys orderby =
     (let result = raw_query senv
            \<lparr>q_selected_columns = [''event_id'', ''project_id''],
             q_limit = 1,
             q_referrer = ''eventstore.get_next_or_prev_event_id'',
             q_start = start, q_end = end', q_conditions = conditions,
             q_filter_keys = filter_keys, q_orderby = orderby\<rparr>
      in if res_error result \<noteq> None \<or> length (res_data result) = 0 then None
         else (case res_data result of
                 [] \<Rightarrow> None
               | r # rs \<Rightarrow> Some (text_type (row_project_id r), text_type (row_event_id r))))"

definition next_time_condition :: "snuba_event \<Rightarrow> condition list" where
  "next_time_condition event =
     [Cond ''timestamp'' ''>='' (ev_timestamp event),
      CondList [Cond ''timestamp'' ''>'' (ev_timestamp event),
                Cond ''event_id'' ''>'' (ev_event_id event)]]"

definition prev_time_condition :: "snuba_event \<Rightarrow> condition list" where
  "prev_time_condition event =
     [Cond ''timestamp'' ''<='' (ev_timestamp event),
      CondList [Cond ''timestamp'' ''<'' (ev_timestamp event),
                Cond ''event_id'' ''<'' (ev_event_id event)]]"

definition get_next_event_id ::
  "snuba_env \<Rightarrow> snuba_event option \<Rightarrow> nat option \<Rightarrow> (string \<times> int list) list option \<Rightarrow> heap
     \<Rightarrow> (string \<times> string) option \<times> heap" where
  "get_next_event_id senv event conditions filter_keys h =
     (case event of
        None \<Rightarrow> (None, h)
      | Some ev \<Rightarrow>
          (let (c, h1) = conditions_or_new conditions h;
               h2 = extend_in_place c (next_time_condition ev) h1
           in (get_next_or_prev_event_id senv (ev_datetime ev) (utcnow senv) (h2 ! c)
                 filter_keys [''timestamp'', ''event_id''], h2)))"

definition get_prev_event_id ::
  "snuba_env \<Rightarrow> snuba_event option \<Rightarrow> nat option \<Rightarrow> (string \<times> int list) list option \<Rightarrow> heap
     \<Rightarrow> (string \<times> string) option \<times> heap" where
  "get_prev_event_id senv event conditions filter_keys h =
     (case event of
        None \<Rightarrow> (None, h)
      | Some ev \<Rightarrow>
          (let (c, h1) = conditions_or_new conditions h;
               h2 = extend_in_place c (prev_time_condition ev) h1
           in (get_next_or_prev_event_id senv 0 (ev_datetime ev) (h2 ! c)
                 filter_keys [''-timestamp'', ''-event_id''], h2)))"

section \<open>The calls a hook issues\<close>

text \<open>
  The calls that the hooks are to issue on the cache backend, as lists of trace events,
  for an instance whose cacheable fields read \<open>cur\<close> (pairs of field and value, in the order
  of \<^verbatim>\<open>cache_fields\<close>). These are the yardsticks the hooks above are compared with; they
  are not part of the program.
\<close>

definition non_pk :: "manager \<Rightarrow> string \<times> scalar \<Rightarrow> bool" where
  "non_pk mgr kv = (fst kv \<noteq> ''pk'' \<and> fst kv \<noteq> pk_name (mgr_model mgr))"

definition pointer_key :: "manager \<Rightarrow> env \<Rightarrow> string \<times> scalar \<Rightarrow> string" where
  "pointer_key mgr env kv = get_lookup_cache_key mgr env [(fst kv, PScalar (snd kv))]"

definition value_key :: "manager \<Rightarrow> env \<Rightarrow> scalar \<Rightarrow> string" where
  "value_key mgr env pk = get_lookup_cache_key mgr env [(pk_name (mgr_model mgr), PScalar pk)]"

definition pointer_writes :: "manager \<Rightarrow> env \<Rightarrow> model_instance \<Rightarrow> (string \<times> scalar) list \<Rightarrow> event list" where
  "pointer_writes mgr env i cur =
     map (\<lambda>kv. CacheSet (pointer_key mgr env kv) (PScalar (inst_pk i)) (cache_ttl mgr) (cache_version mgr))
         (filter (non_pk mgr) cur)"

definition value_write :: "manager \<Rightarrow> env \<Rightarrow> model_instance \<Rightarrow> event" where
  "value_write mgr env i =
     CacheSet (value_key mgr env (inst_pk i)) (PInst (i\<lparr>inst_db := None\<rparr>)) (cache_ttl mgr) (cache_version mgr)"

definition value_write_log :: "manager \<Rightarrow> env \<Rightarrow> model_instance \<Rightarrow> event list" where
  "value_write_log mgr env i =
     (case cache_fault env (value_write mgr env i) of None \<Rightarrow> [] | Some e \<Rightarrow> [LogException e])"

definition stale_of :: "(string \<times> scalar) list \<Rightarrow> (string \<times> scalar) list \<Rightarrow> (string \<times> scalar) list" where
  "stale_of snap cur =
     concat (map (\<lambda>kv. case map_of snap (fst kv) of
                          None \<Rightarrow> []
                        | Some old \<Rightarrow> if old \<noteq> snd kv then [(fst kv, old)] else []) cur)"

definition stale_deletes :: "manager \<Rightarrow> env \<Rightarrow> (string \<times> scalar) list option \<Rightarrow> (string \<times> scalar) list \<Rightarrow> event list" where
  "stale_deletes mgr env snap cur =
     (case snap of
        None \<Rightarrow> []
      | Some sn \<Rightarrow> map (\<lambda>kv. CacheDelete (pointer_key mgr env kv) (cache_version mgr)) (stale_of sn cur))"

definition save_calls :: "manager \<Rightarrow> env \<Rightarrow> model_instance \<Rightarrow> (string \<times> scalar) list option \<Rightarrow> (string \<times> scalar) list \<Rightarrow> event list" where
  "save_calls mgr env i snap cur =
     pointer_writes mgr env i cur @ [value_write mgr env i] @ value_write_log mgr env i
       @ stale_deletes mgr env snap cur"

definition delete_calls :: "manager \<Rightarrow> env \<Rightarrow> model_instance \<Rightarrow> (string \<times> scalar) list \<Rightarrow> event list" where
  "delete_calls mgr env i cur =
     map (\<lambda>kv. CacheDelete (pointer_key mgr env kv) (cache_version mgr)) (filter (non_pk mgr) cur)
       @ [CacheDelete (value_key mgr env (inst_pk i)) (cache_version mgr)]"

text \<open>The events of a run: what the trace gained between two states.\<close>

definition events_since :: "world \<Rightarrow> world \<Rightarrow> event list" where
  "events_since w w' = drop (length (trace w)) (trace w')"

fun is_cache_get :: "event \<Rightarrow> bool" where
  "is_cache_get (CacheGet k ver) = True"
| "is_cache_get ev = False"

text \<open>A run from \<open>w\<close> to \<open>w'\<close> that only adds to the trace, and adds no read of the cache.\<close>

definition no_cache_read :: "world \<Rightarrow> world \<Rightarrow> bool" where
  "no_cache_read w w' =
     (take (length (trace w)) (trace w') = trace w \<and> filter is_cache_get (events_since w w') = [])"

section \<open>A model, a manager and instances to run the hooks on\<close>

definition Project :: model_meta where
  "Project = \<lparr>model_name = ''Project'', pk_name = ''id'',
              field_attnames = [(''id'', ''id''), (''slug'', ''slug'')]\<rparr>"

definition projects :: manager where
  "projects = \<lparr>mgr_model = Project, cache_fields = [''slug''], cache_ttl = 300,
               cache_version = Some ''v1''\<rparr>"

definition project5 :: "string \<Rightarrow> model_instance" where
  "project5 slug = \<lparr>inst_id = 1, inst_class = ''Project'', inst_pk_attname = ''id'',
                    inst_pk = SInt 5, inst_attrs = [(''slug'', SStr slug)], inst_db = Some ''default''\<rparr>"

text \<open>A backing store that holds project 5 under the slug \<^verbatim>\<open>bar\<close>, found by \<^verbatim>\<open>id\<close> or by
  \<^verbatim>\<open>slug\<close>.\<close>

definition store5 :: "kwargs \<Rightarrow> pyerror + model_instance" where
  "store5 kwargs =
     (if kwargs = [(''id'', PScalar (SInt 5))] \<or> kwargs = [(''pk'', PScalar (SInt 5))]
         \<or> kwargs = [(''slug'', PScalar (SStr ''bar''))]
      then Inr (project5 ''bar'') else Inl ObjectDoesNotExist)"

text \<open>Collaborators: a cache backend that never raises, one whose writes of a scalar
  raise, one that cannot serialise an instance, and one whose deletions raise. The hash is
  the identity, which keeps the keys legible.\<close>

definition env_ok :: env where
  "env_ok = \<lparr>md5_text = (\<lambda>s. s), store_get = store5, cache_fault = (\<lambda>ev. None), DEBUG = False,
             db_for_read = (\<lambda>kwargs. Some ''default''), MAX_VALUE = 9223372036854775807,
             normalize_event_id = (\<lambda>s. None)\<rparr>"

definition scalar_write_fault :: "event \<Rightarrow> pyerror option" where
  "scalar_write_fault ev =
     (case ev of CacheSet k (PScalar s) t ver \<Rightarrow> Some (BackendError ''cache unreachable'') | _ \<Rightarrow> None)"


definition delete_fault :: "event \<Rightarrow> pyerror option" where
  "delete_fault ev =
     (case ev of CacheDelete k ver \<Rightarrow> Some (BackendError ''cache unreachable'') | _ \<Rightarrow> None)"

definition world0 :: world where
  "world0 = \<lparr>cache = (\<lambda>kv. None), tracked = (\<lambda>n. None), trace = []\<rparr>"

text \<open>A cache in which the value entry of the key for \<^verbatim>\<open>id=abc\<close> holds project 5.\<close>

definition poisoned_world :: world where
  "poisoned_world =
     world0\<lparr>cache := (cache world0)((''modelcache:Project:id=abc'', Some ''v1'') \<mapsto> PInst (project5 ''bar''))\<rparr>"

text \<open>An event manager without cache fields, over a store that holds event 12 of project
  1, found by its \<^verbatim>\<open>id\<close> or by its hex \<^verbatim>\<open>event_id\<close>.\<close>

definition hex_id :: string where
  "hex_id = ''deadbeefdeadbeefdeadbeefdeadbeef''"

definition Event :: model_meta where
  "Event = \<lparr>model_name = ''Event'', pk_name = ''id'',
            field_attnames = [(''id'', ''id''), (''event_id'', ''event_id''), (''project_id'', ''project_id'')]\<rparr>"

definition events :: manager where
  "events = \<lparr>mgr_model = Event, cache_fields = [], cache_ttl = 300, cache_version = None\<rparr>"

definition event12 :: model_instance where
  "event12 = \<lparr>inst_id = 2, inst_class = ''Event'', inst_pk_attname = ''id'', inst_pk = SInt 12,
               inst_attrs = [(''event_id'', SStr hex_id), (''project_id'', SInt 1)],
               inst_db = Some ''default''\<rparr>"

definition event_store :: "kwargs \<Rightarrow> pyerror + model_instance" where
  "event_store kwargs =
     (if kwargs = [(''id'', PScalar (SStr ''12'')), (''project_id'', PScalar (SInt 1))]
         \<or> kwargs = [(''event_id'', PScalar (SStr hex_id)), (''project_id'', PScalar (SInt 1))]
      then Inr event12 else Inl ObjectDoesNotExist)"

definition env_events :: env where
  "env_events = env_ok\<lparr>store_get := event_store,
                        normalize_event_id := (\<lambda>s. if s = hex_id then Some s else None)\<rparr>"

text \<open>A reference event, and an analytics backend that answers every query with one row.\<close>

definition event_t2 :: snuba_event where
  "event_t2 = \<lparr>ev_timestamp = SStr ''2019-05-01T00:00:02'', ev_datetime = 1556668802,
                ev_event_id = SStr ''bbbbbbbbbbbbbbbbbbbbbbbbbbbbbbbb''\<rparr>"

definition one_row_backend :: snuba_env where
  "one_row_backend =
     \<lparr>raw_query = (\<lambda>q. \<lparr>res_error = None,
                          res_data = [\<lparr>row_project_id = SInt 1,
                                       row_event_id = SStr ''cccccccccccccccccccccccccccccccc''\<rparr>]\<rparr>),
      utcnow = 1556670000\<rparr>"

section \<open>Properties of the key codec\<close>

lemma filter_key_distinct:
  "distinct (map f xs) \<Longrightarrow> k \<in> set xs \<Longrightarrow> filter (\<lambda>x. f k = f x) xs = [k]"
proof (induction xs)
  case Nil
  then show ?case by simp
next
  case (Cons a xs)
  show ?case
  proof (cases "k = a")
    case True
    have "filter (\<lambda>x. f a = f x) xs = []"
      using Cons.prems(1) by (auto simp: filter_empty_conv)
    with True show ?thesis by simp
  next
    case False
    with Cons.prems have kin: "k \<in> set xs" by simp
    with Cons.prems(1) have "f k \<noteq> f a" by (metis distinct.simps(2) image_eqI list.simps(9) set_map)
    with Cons.IH Cons.prems(1) kin show ?thesis by simp
  qed
qed

lemma sort_key_distinct_mset:
  assumes "distinct (map f xs)" and "mset ys = mset xs"
  shows "sort_key f ys = sort_key f xs"
proof (rule properties_for_sort_key)
  show "mset (sort_key f xs) = mset ys" using assms(2) by simp
  show "sorted (map f (sort_key f xs))" by simp
  fix k assume k: "k \<in> set (sort_key f xs)"
  then have kx: "k \<in> set xs" by simp
  have "mset (map f ys) = mset (map f xs)" using assms(2) by simp
  then have dy: "distinct (map f ys)" using assms(1) by (metis mset_eq_imp_distinct_iff)
  have ky: "k \<in> set ys" using kx assms(2) by (metis set_mset_mset)
  have d2: "distinct (map f (sort_key f xs))" using assms(1) by (simp add: distinct_map)
  show "filter (\<lambda>x. f k = f x) (sort_key f xs) = filter (\<lambda>x. f k = f x) ys"
    using filter_key_distinct[OF dy ky] filter_key_distinct[OF d2 k] by simp
qed

lemma insort_key_map_same_key:
  assumes "\<And>x. f (h x) = f x"
  shows "insort_key f (h x) (map h ys) = map h (insort_key f x ys)"
  by (induction ys) (simp_all add: assms)

lemma sort_key_map_same_key:
  assumes "\<And>x. f (h x) = f x"
  shows "sort_key f (map h xs) = map h (sort_key f xs)"
  by (induction xs) (simp_all add: insort_key_map_same_key[of f h, OF assms])

lemma kwargs_bit_reduce:
  "kwargs_bit model (k, case v of PInst i \<Rightarrow> PScalar (inst_pk i) | PScalar s \<Rightarrow> PScalar s) = kwargs_bit model (k, v)"
  by (cases v) (simp_all add: kwargs_bit_def prep_value_def smart_text_def)

text \<open>
  C6. \<^verbatim>\<open>make_key\<close> does not depend on the order in which the keyword arguments are
  listed: two listings of the same (field, value) pairs of a dictionary give the same key.
  The field name \<^verbatim>\<open>pk\<close> stands for the model's primary-key field name, and a value that is
  a model instance counts as its primary key.
\<close>

theorem make_key_order_invariant:
  assumes "distinct (map fst kwargs)" and "mset kwargs' = mset kwargs"
  shows "make_key md5 model prefix kwargs' = make_key md5 model prefix kwargs
       \<and> make_key md5 model prefix [(''pk'', v)] = make_key md5 model prefix [(pk_name model, v)]
       \<and> make_key md5 model prefix
            (map (\<lambda>(k, x). (k, case x of PInst i \<Rightarrow> PScalar (inst_pk i) | PScalar s \<Rightarrow> PScalar s)) kwargs)
          = make_key md5 model prefix kwargs"
proof (intro conjI)
  show "make_key md5 model prefix kwargs' = make_key md5 model prefix kwargs"
    using sort_key_distinct_mset[OF assms] by (simp add: make_key_def)
  show "make_key md5 model prefix [(''pk'', v)] = make_key md5 model prefix [(pk_name model, v)]"
    by (simp add: make_key_def kwargs_bit_def prep_key_def)
  let ?h = "\<lambda>(k, x). (k, case x of PInst i \<Rightarrow> PScalar (inst_pk i) | PScalar s \<Rightarrow> PScalar s)"
  have key: "\<And>p. fst (?h p) = fst p" by (simp add: case_prod_beta)
  have bit: "\<And>p. kwargs_bit model (?h p) = kwargs_bit model p"
    using kwargs_bit_reduce by (simp add: case_prod_beta)
  have srt: "sort_key fst (map ?h kwargs) = map ?h (sort_key fst kwargs)"
    by (rule sort_key_map_same_key) (rule key)
  have "map (kwargs_bit model) (map ?h xs) = map (kwargs_bit model) xs" for xs
    by (induction xs) (simp_all only: list.map bit)
  with srt have "map (kwargs_bit model) (sort_key fst (map ?h kwargs)) = map (kwargs_bit model) (sort_key fst kwargs)"
    by (simp only:)
  then show "make_key md5 model prefix (map ?h kwargs) = make_key md5 model prefix kwargs"
    by (simp add: make_key_def)
qed

theorem make_key_order_invariant_witness:
  "distinct (map fst [(''a'', PScalar (SInt 1)), (''b'', PScalar (SInt 2))])
   \<and> mset [(''b'', PScalar (SInt 2)), (''a'', PScalar (SInt 1))] = mset [(''a'', PScalar (SInt 1)), (''b'', PScalar (SInt 2))]
   \<and> make_key id \<lparr>model_name = ''T'', pk_name = ''id'', field_attnames = []\<rparr> ''p'' [(''b'', PScalar (SInt 2)), (''a'', PScalar (SInt 1))]
     = make_key id \<lparr>model_name = ''T'', pk_name = ''id'', field_attnames = []\<rparr> ''p'' [(''a'', PScalar (SInt 1)), (''b'', PScalar (SInt 2))]
   \<and> make_key id \<lparr>model_name = ''T'', pk_name = ''id'', field_attnames = []\<rparr> ''p'' [(''a'', PScalar (SInt 1)), (''b'', PScalar (SInt 2))] = ''p:T:a=1:b=2''"
proof -
  have d: "distinct (map fst [(''a'', PScalar (SInt 1)), (''b'', PScalar (SInt 2))])" by simp
  have m: "mset [(''b'', PScalar (SInt 2)), (''a'', PScalar (SInt 1))] = mset [(''a'', PScalar (SInt 1)), (''b'', PScalar (SInt 2))]"
    by (simp add: add.commute)
  have v: "make_key id \<lparr>model_name = ''T'', pk_name = ''id'', field_attnames = []\<rparr> ''p'' [(''a'', PScalar (SInt 1)), (''b'', PScalar (SInt 2))] = ''p:T:a=1:b=2''"
    by code_simp
  show ?thesis using d m v make_key_order_invariant[OF d m, of id "\<lparr>model_name = ''T'', pk_name = ''id'', field_attnames = []\<rparr>" "''p''"]
    by simp
qed

section \<open>Properties of the hooks\<close>

lemma emit_simps:
  "trace (emit ev w) = trace w @ [ev]" "cache (emit ev w) = cache w" "tracked (emit ev w) = tracked w"
  by (simp_all add: emit_def)

lemma cache_set_frame:
  "trace (snd (cache_set env k v t ver w)) = trace w @ [CacheSet k v t ver]"
  "tracked (snd (cache_set env k v t ver w)) = tracked w"
  by (simp_all add: cache_set_def Let_def emit_simps split: option.splits)

lemma cache_set_ok:
  assumes "cache_fault env (CacheSet k v t ver) = None"
  shows "fst (cache_set env k v t ver w) = Inr ()"
    and "cache (snd (cache_set env k v t ver w)) = (cache w)((k, ver) \<mapsto> v)"
  using assms by (simp_all add: cache_set_def Let_def emit_simps)

lemma cache_set_fault:
  assumes "cache_fault env (CacheSet k v t ver) = Some e"
  shows "fst (cache_set env k v t ver w) = Inl e"
    and "cache (snd (cache_set env k v t ver w)) = cache w"
  using assms by (simp_all add: cache_set_def Let_def emit_simps)

lemma cache_delete_frame:
  "trace (snd (cache_delete env k ver w)) = trace w @ [CacheDelete k ver]"
  "tracked (snd (cache_delete env k ver w)) = tracked w"
  "cache w kv = None \<Longrightarrow> cache (snd (cache_delete env k ver w)) kv = None"
  by (simp_all add: cache_delete_def Let_def emit_simps split: option.splits)

lemma cache_delete_ok:
  assumes "cache_fault env (CacheDelete k ver) = None"
  shows "fst (cache_delete env k ver w) = Inr ()"
    and "cache (snd (cache_delete env k ver w)) = (cache w)((k, ver) := None)"
  using assms by (simp_all add: cache_delete_def Let_def emit_simps)

lemma field_values_Cons:
  assumes "field_values mgr i (k # keys) = Inr kvs"
  obtains v kvs' where "value_for_field mgr i k = Inr v" "field_values mgr i keys = Inr kvs'" "kvs = (k, v) # kvs'"
  using assms by (auto split: sum.splits)

lemma field_values_keys: "field_values mgr i keys = Inr kvs \<Longrightarrow> map fst kvs = keys"
  by (induction keys arbitrary: kvs) (auto split: sum.splits)



lemma store_pointers_run:
  assumes "\<forall>k s t ver. cache_fault env (CacheSet k (PScalar s) t ver) = None"
      and "field_values mgr i keys = Inr kvs"
  shows "fst (store_pointers mgr env i keys w) = Inr ()
       \<and> trace (snd (store_pointers mgr env i keys w)) = trace w @ pointer_writes mgr env i kvs
       \<and> tracked (snd (store_pointers mgr env i keys w)) = tracked w"
  using assms(2)
proof (induction keys arbitrary: kvs w)
  case Nil
  then show ?case by (simp add: pointer_writes_def)
next
  case (Cons k keys)
  from Cons.prems obtain v kvs' where
    v: "value_for_field mgr i k = Inr v" and rest: "field_values mgr i keys = Inr kvs'"
    and kvs: "kvs = (k, v) # kvs'"
    by (rule field_values_Cons)
  show ?case
  proof (cases "k = ''pk'' \<or> k = pk_name (mgr_model mgr)")
    case True
    then have "\<not> non_pk mgr (k, v)" by (auto simp: non_pk_def)
    with True Cons.IH[OF rest, of w] kvs show ?thesis
      by (simp add: pointer_writes_def)
  next
    case False
    then have np: "non_pk mgr (k, v)" by (simp add: non_pk_def)
    let ?key = "get_lookup_cache_key mgr env [(k, PScalar v)]"
    let ?w' = "snd (cache_set env ?key (PScalar (inst_pk i)) (cache_ttl mgr) (cache_version mgr) w)"
    have ok: "fst (cache_set env ?key (PScalar (inst_pk i)) (cache_ttl mgr) (cache_version mgr) w) = Inr ()"
      using assms(1) by (simp add: cache_set_ok)
    have step: "store_pointers mgr env i (k # keys) w = store_pointers mgr env i keys ?w'"
      using False v ok by (simp add: case_prod_beta)
    show ?thesis
      using Cons.IH[OF rest, of ?w'] np kvs
      by (simp only: step) (simp add: cache_set_frame pointer_writes_def pointer_key_def)
  qed
qed

lemma store_object_frame:
  "trace (store_object mgr env i w) = trace w @ [value_write mgr env i] @ value_write_log mgr env i"
  "tracked (store_object mgr env i w) = tracked w"
  by (auto simp: store_object_def value_write_def value_write_log_def value_key_def cache_set_def Let_def emit_simps
           split: option.splits)

lemma stale_of_Cons:
  "stale_of snap ((k, v) # kvs) =
     (case map_of snap k of None \<Rightarrow> [] | Some old \<Rightarrow> if old \<noteq> v then [(k, old)] else []) @ stale_of snap kvs"
  by (simp add: stale_of_def split: option.splits)

lemma kill_stale_keeps_None:
  "cache w kv = None \<Longrightarrow> cache (snd (kill_stale mgr env i snap keys w)) kv = None"
proof (induction keys arbitrary: w)
  case Nil
  then show ?case by simp
next
  case (Cons k keys)
  then show ?case
    by (auto simp: case_prod_beta cache_delete_frame(3) split: option.splits sum.splits)
qed


lemma kill_stale_run:
  assumes "\<forall>k ver. cache_fault env (CacheDelete k ver) = None"
      and "field_values mgr i keys = Inr kvs"
  shows "fst (kill_stale mgr env i snap keys w) = Inr ()
       \<and> trace (snd (kill_stale mgr env i snap keys w)) = trace w @ stale_deletes mgr env (Some snap) kvs
       \<and> tracked (snd (kill_stale mgr env i snap keys w)) = tracked w
       \<and> (\<forall>kv \<in> set (stale_of snap kvs).
             cache (snd (kill_stale mgr env i snap keys w)) (pointer_key mgr env kv, cache_version mgr) = None)"
  using assms(2)
proof (induction keys arbitrary: kvs w)
  case Nil
  then show ?case by (simp add: stale_deletes_def stale_of_def)
next
  case (Cons k keys)
  from Cons.prems obtain v kvs' where
    v: "value_for_field mgr i k = Inr v" and rest: "field_values mgr i keys = Inr kvs'"
    and kvs: "kvs = (k, v) # kvs'"
    by (rule field_values_Cons)
  show ?case
  proof (cases "map_of snap k")
    case None
    with Cons.IH[OF rest, of w] kvs show ?thesis
      by (simp add: stale_deletes_def stale_of_Cons)
  next
    case (Some old)
    show ?thesis
    proof (cases "old = v")
      case True
      with Some v Cons.IH[OF rest, of w] kvs show ?thesis
        by (simp add: stale_deletes_def stale_of_Cons)
    next
      case False
      let ?key = "get_lookup_cache_key mgr env [(k, PScalar old)]"
      let ?w' = "snd (cache_delete env ?key (cache_version mgr) w)"
      have ok: "fst (cache_delete env ?key (cache_version mgr) w) = Inr ()"
        using assms(1) by (simp add: cache_delete_ok)
      have step: "kill_stale mgr env i snap (k # keys) w = kill_stale mgr env i snap keys ?w'"
        using False Some v ok by (simp add: case_prod_beta)
      have gone: "cache ?w' (?key, cache_version mgr) = None"
        using assms(1) by (simp add: cache_delete_ok)
      have head: "cache (snd (kill_stale mgr env i snap keys ?w')) (pointer_key mgr env (k, old), cache_version mgr) = None"
        using gone by (simp add: kill_stale_keeps_None pointer_key_def)
      show ?thesis
        using Cons.IH[OF rest, of ?w'] False Some kvs head
        by (simp only: step) (simp add: cache_delete_frame stale_deletes_def stale_of_Cons pointer_key_def)
    qed
  qed
qed

lemma cache_state_run:
  assumes "field_values mgr i (cache_fields mgr) = Inr cur"
  shows "fst (cache_state mgr i w) = Inr ()"
    and "trace (snd (cache_state mgr i w)) = trace w"
    and "cache (snd (cache_state mgr i w)) = cache w"
    and "tracked (snd (cache_state mgr i w)) =
           (if truthy (inst_pk i) then (tracked w)(inst_id i \<mapsto> cur) else tracked w)"
  using assms by (simp_all add: cache_state_def)

lemma post_save_run:
  assumes sets: "\<forall>k s t ver. cache_fault env (CacheSet k (PScalar s) t ver) = None"
      and dels: "\<forall>k ver. cache_fault env (CacheDelete k ver) = None"
      and cur: "field_values mgr i (cache_fields mgr) = Inr cur"
  shows "fst (post_save mgr env i w) = Inr ()
       \<and> trace (snd (post_save mgr env i w)) = trace w @ save_calls mgr env i (tracked w (inst_id i)) cur
       \<and> tracked (snd (post_save mgr env i w)) =
           (if truthy (inst_pk i) then (tracked w)(inst_id i \<mapsto> cur) else tracked w)
       \<and> (\<forall>sn. tracked w (inst_id i) = Some sn \<longrightarrow>
             (\<forall>kv \<in> set (stale_of sn cur).
                cache (snd (post_save mgr env i w)) (pointer_key mgr env kv, cache_version mgr) = None))"
proof -
  let ?w1 = "snd (store_pointers mgr env i (cache_fields mgr) w)"
  let ?w2 = "store_object mgr env i ?w1"
  note sp = store_pointers_run[OF sets cur, of w]
  have t2: "tracked ?w2 = tracked w" using sp by (simp add: store_object_frame)
  have tr2: "trace ?w2 = trace w @ pointer_writes mgr env i cur @ [value_write mgr env i] @ value_write_log mgr env i"
    using sp by (simp add: store_object_frame)
  show ?thesis
  proof (cases "tracked w (inst_id i)")
    case None
    have eq: "post_save mgr env i w = cache_state mgr i ?w2"
      using sp None t2 by (simp add: post_save_def case_prod_beta Let_def)
    show ?thesis
      using None tr2 t2
      by (simp only: eq) (simp add: cache_state_run[OF cur] save_calls_def stale_deletes_def)
  next
    case (Some sn)
    let ?w3 = "snd (kill_stale mgr env i sn (cache_fields mgr) ?w2)"
    note ks = kill_stale_run[OF dels cur, of sn ?w2]
    have eq: "post_save mgr env i w = cache_state mgr i ?w3"
      using sp Some t2 ks by (simp add: post_save_def case_prod_beta Let_def)
    show ?thesis
      using Some tr2 t2 ks
      by (simp only: eq) (simp add: cache_state_run[OF cur] save_calls_def)
  qed
qed

lemma remove_pointers_keeps_None:
  "cache w kv = None \<Longrightarrow> cache (snd (remove_pointers mgr env i keys w)) kv = None"
proof (induction keys arbitrary: w)
  case Nil
  then show ?case by simp
next
  case (Cons k keys)
  then show ?case
    by (auto simp: case_prod_beta cache_delete_frame(3) split: sum.splits)
qed

lemma remove_pointers_run:
  assumes "\<forall>k ver. cache_fault env (CacheDelete k ver) = None"
      and "field_values mgr i keys = Inr kvs"
  shows "fst (remove_pointers mgr env i keys w) = Inr ()
       \<and> trace (snd (remove_pointers mgr env i keys w))
           = trace w @ map (\<lambda>kv. CacheDelete (pointer_key mgr env kv) (cache_version mgr)) (filter (non_pk mgr) kvs)
       \<and> (\<forall>kv \<in> set (filter (non_pk mgr) kvs).
             cache (snd (remove_pointers mgr env i keys w)) (pointer_key mgr env kv, cache_version mgr) = None)"
  using assms(2)
proof (induction keys arbitrary: kvs w)
  case Nil
  then show ?case by simp
next
  case (Cons k keys)
  from Cons.prems obtain v kvs' where
    v: "value_for_field mgr i k = Inr v" and rest: "field_values mgr i keys = Inr kvs'"
    and kvs: "kvs = (k, v) # kvs'"
    by (rule field_values_Cons)
  show ?case
  proof (cases "k = ''pk'' \<or> k = pk_name (mgr_model mgr)")
    case True
    then have "\<not> non_pk mgr (k, v)" by (auto simp: non_pk_def)
    with True Cons.IH[OF rest, of w] kvs show ?thesis by simp
  next
    case False
    then have np: "non_pk mgr (k, v)" by (simp add: non_pk_def)
    let ?key = "get_lookup_cache_key mgr env [(k, PScalar v)]"
    let ?w' = "snd (cache_delete env ?key (cache_version mgr) w)"
    have ok: "fst (cache_delete env ?key (cache_version mgr) w) = Inr ()"
      using assms(1) by (simp add: cache_delete_ok)
    have step: "remove_pointers mgr env i (k # keys) w = remove_pointers mgr env i keys ?w'"
      using False v ok by (simp add: case_prod_beta)
    have gone: "cache ?w' (?key, cache_version mgr) = None"
      using assms(1) by (simp add: cache_delete_ok)
    have head: "cache (snd (remove_pointers mgr env i keys ?w')) (pointer_key mgr env (k, v), cache_version mgr) = None"
      using gone by (simp add: remove_pointers_keeps_None pointer_key_def)
    show ?thesis
      using Cons.IH[OF rest, of ?w'] np kvs head
      by (simp only: step) (simp add: cache_delete_frame pointer_key_def)
  qed
qed


lemma events_since_append: "trace w' = trace w @ xs \<Longrightarrow> events_since w w' = xs"
  by (simp add: events_since_def)

lemma stale_of_mem:
  assumes "(f, new) \<in> set cur" and "map_of snap f = Some old" and "old \<noteq> new"
  shows "(f, old) \<in> set (stale_of snap cur)"
  using assms by (force simp: stale_of_def)

lemma post_delete_run:
  assumes dels: "\<forall>k ver. cache_fault env (CacheDelete k ver) = None"
      and cur: "field_values mgr i (cache_fields mgr) = Inr cur"
  shows "fst (post_delete mgr env i w) = Inr ()"
    and "trace (snd (post_delete mgr env i w)) = trace w @ delete_calls mgr env i cur"
    and "\<forall>kv \<in> set (filter (non_pk mgr) cur).
           cache (snd (post_delete mgr env i w)) (pointer_key mgr env kv, cache_version mgr) = None"
    and "cache (snd (post_delete mgr env i w)) (value_key mgr env (inst_pk i), cache_version mgr) = None"
proof -
  let ?w1 = "snd (remove_pointers mgr env i (cache_fields mgr) w)"
  let ?vk = "get_lookup_cache_key mgr env [(pk_name (mgr_model mgr), PScalar (inst_pk i))]"
  note rp = remove_pointers_run[OF dels cur, of w]
  have eq: "post_delete mgr env i w = cache_delete env ?vk (cache_version mgr) ?w1"
    using rp by (simp add: post_delete_def case_prod_beta)
  show "fst (post_delete mgr env i w) = Inr ()"
    using dels by (simp add: eq cache_delete_ok)
  show "trace (snd (post_delete mgr env i w)) = trace w @ delete_calls mgr env i cur"
    using rp by (simp add: eq cache_delete_frame delete_calls_def value_key_def)
  show "\<forall>kv \<in> set (filter (non_pk mgr) cur).
           cache (snd (post_delete mgr env i w)) (pointer_key mgr env kv, cache_version mgr) = None"
    using rp by (simp add: eq cache_delete_frame(3))
  show "cache (snd (post_delete mgr env i w)) (value_key mgr env (inst_pk i), cache_version mgr) = None"
    using dels by (simp add: eq cache_delete_ok value_key_def)
qed

lemma no_cache_read_iff:
  "no_cache_read w w' \<longleftrightarrow> (\<exists>xs. trace w' = trace w @ xs \<and> filter is_cache_get xs = [])"
proof
  assume a: "no_cache_read w w'"
  have "trace w' = take (length (trace w)) (trace w') @ drop (length (trace w)) (trace w')"
    by simp
  with a have "trace w' = trace w @ events_since w w'"
    by (simp add: no_cache_read_def events_since_def)
  with a show "\<exists>xs. trace w' = trace w @ xs \<and> filter is_cache_get xs = []"
    by (auto simp: no_cache_read_def)
next
  assume "\<exists>xs. trace w' = trace w @ xs \<and> filter is_cache_get xs = []"
  then show "no_cache_read w w'"
    by (auto simp: no_cache_read_def events_since_def)
qed

lemma no_cache_read_refl: "no_cache_read w w"
  by (simp add: no_cache_read_iff)

lemma no_cache_read_trans:
  "no_cache_read w w1 \<Longrightarrow> no_cache_read w1 w2 \<Longrightarrow> no_cache_read w w2"
  by (auto simp: no_cache_read_iff)

lemma no_cache_read_step:
  "trace w1 = trace w @ [ev] \<Longrightarrow> \<not> is_cache_get ev \<Longrightarrow> no_cache_read w1 w2 \<Longrightarrow> no_cache_read w w2"
  by (auto simp: no_cache_read_iff)

lemma no_cache_read_emit: "\<not> is_cache_get ev \<Longrightarrow> no_cache_read w (emit ev w)"
  by (simp add: no_cache_read_iff emit_simps)

lemma cache_set_quiet: "no_cache_read w (snd (cache_set env k v t ver w))"
  by (simp add: no_cache_read_iff cache_set_frame)

lemma cache_delete_quiet: "no_cache_read w (snd (cache_delete env k ver w))"
  by (simp add: no_cache_read_iff cache_delete_frame)

lemma store_pointers_quiet: "no_cache_read w (snd (store_pointers mgr env i keys w))"
proof (induction keys arbitrary: w)
  case Nil
  show ?case by (simp add: no_cache_read_refl)
next
  case (Cons k keys)
  show ?case
    using Cons.IH no_cache_read_trans[OF cache_set_quiet Cons.IH] cache_set_quiet
    by (auto simp: case_prod_beta no_cache_read_refl split: sum.splits)
qed

lemma kill_stale_quiet: "no_cache_read w (snd (kill_stale mgr env i snap keys w))"
proof (induction keys arbitrary: w)
  case Nil
  show ?case by (simp add: no_cache_read_refl)
next
  case (Cons k keys)
  show ?case
    using Cons.IH no_cache_read_trans[OF cache_delete_quiet Cons.IH] cache_delete_quiet
    by (auto simp: case_prod_beta no_cache_read_refl split: sum.splits option.splits)
qed

lemma store_object_quiet: "no_cache_read w (store_object mgr env i w)"
  by (simp add: no_cache_read_iff store_object_frame value_write_def value_write_log_def split: option.splits)

lemma cache_state_quiet: "no_cache_read w (snd (cache_state mgr i w))"
  by (auto simp: cache_state_def no_cache_read_iff split: sum.splits)

lemma post_save_quiet: "no_cache_read w (snd (post_save mgr env i w))"
proof -
  let ?w1 = "snd (store_pointers mgr env i (cache_fields mgr) w)"
  let ?w2 = "store_object mgr env i ?w1"
  have q2: "no_cache_read w ?w2"
    using store_pointers_quiet store_object_quiet by (rule no_cache_read_trans)
  have q3: "no_cache_read w (snd (kill_stale mgr env i sn (cache_fields mgr) ?w2))" for sn
    using q2 kill_stale_quiet by (rule no_cache_read_trans)
  have q4: "no_cache_read w (snd (cache_state mgr i ?w2))"
    using q2 cache_state_quiet by (rule no_cache_read_trans)
  have q5: "no_cache_read w (snd (cache_state mgr i (snd (kill_stale mgr env i sn (cache_fields mgr) ?w2))))" for sn
    using q3 cache_state_quiet by (rule no_cache_read_trans)
  show ?thesis
    using store_pointers_quiet[of w mgr env i "cache_fields mgr"] q3 q4 q5
    by (auto simp: post_save_def case_prod_beta Let_def split: sum.splits option.splits)
qed










lemma project5_fields:
  "field_values projects (project5 slug) (cache_fields projects) = Inr [(''slug'', SStr slug)]"
  by (simp add: projects_def project5_def Project_def value_for_field_def getattr_def)

lemma env_ok_no_fault: "cache_fault env_ok ev = None"
  by (simp add: env_ok_def)

lemma show_int_5: "show_int 5 = ''5''"
  by code_simp

lemma projects_keys:
  "pointer_key projects env_ok (''slug'', SStr s) = ''modelcache:Project:slug='' @ s"
  "value_key projects env_ok (SInt 5) = ''modelcache:Project:id=5''"
  "cache_version projects = Some ''v1''"
  "non_pk projects (''slug'', v)"
  by (simp_all add: pointer_key_def value_key_def get_lookup_cache_key_def make_key_def kwargs_bit_def
        prep_key_def prep_value_def smart_text_def projects_def Project_def env_ok_def non_pk_def
        show_int_5)

lemma env_ok_sets: "\<forall>k s t ver. cache_fault env_ok (CacheSet k (PScalar s) t ver) = None"
  by (simp add: env_ok_no_fault)

lemma env_ok_dels: "\<forall>k ver. cache_fault env_ok (CacheDelete k ver) = None"
  by (simp add: env_ok_no_fault)

lemma first_save_tracked:
  "tracked (snd (post_save projects env_ok (project5 ''foo'') world0)) (inst_id (project5 ''bar''))
     = Some [(''slug'', SStr ''foo'')]"
  using post_save_run[OF env_ok_sets env_ok_dels project5_fields[of "''foo''"], of world0]
  by (simp add: project5_def)

lemma lookup_field_slug: "lookup_field projects ''slug'' = ''slug''"
  by (simp add: lookup_field_def endswith_def)

lemma lookup_field_pk: "lookup_field projects ''pk'' = ''id''" "lookup_field projects ''id'' = ''id''"
  by (simp_all add: lookup_field_def endswith_def projects_def Project_def)

lemma projects_facts:
  "cache_fields projects = [''slug'']" "cache_ttl projects = 300" "pk_name (mgr_model projects) = ''id''"
  "model_name (mgr_model projects) = ''Project''"
  by (simp_all add: projects_def Project_def)

lemma slug_key:
  "get_lookup_cache_key projects env_ok [(''slug'', PScalar (SStr s))] = ''modelcache:Project:slug='' @ s"
  using projects_keys(1)[of s] by (simp add: pointer_key_def)

lemma id_key:
  "get_lookup_cache_key projects env_ok [(''id'', PScalar (SInt 5))] = ''modelcache:Project:id=5''"
  using projects_keys(2) by (simp add: value_key_def projects_facts)

lemma first_save_cache:
  "cache (snd (post_save projects env_ok (project5 ''foo'') world0))
     = [(''modelcache:Project:slug=foo'', Some ''v1'') \<mapsto> PScalar (SInt 5),
        (''modelcache:Project:id=5'', Some ''v1'') \<mapsto> PInst ((project5 ''foo'')\<lparr>inst_db := None\<rparr>)]"
proof -
  have k1: "get_lookup_cache_key projects env_ok [(''slug'', PScalar (SStr ''foo''))] = ''modelcache:Project:slug=foo''"
    by (simp add: slug_key)
  have vf: "value_for_field projects (project5 ''foo'') ''slug'' = Inr (SStr ''foo'')"
    by (simp add: value_for_field_def getattr_def projects_def Project_def project5_def)
  have pk: "inst_pk (project5 ''foo'') = SInt 5" "inst_id (project5 ''foo'') = 1" by (simp_all add: project5_def)
  show ?thesis
    by (simp add: post_save_def projects_facts vf k1 id_key pk cache_set_def env_ok_no_fault Let_def
          emit_def store_object_def world0_def cache_state_def projects_keys(3))
qed

lemma project5_reads:
  "value_for_field projects (project5 slug) ''slug'' = Inr (SStr slug)"
  "inst_pk (project5 slug) = SInt 5" "inst_id (project5 slug) = 1"
  by (simp_all add: value_for_field_def getattr_def projects_def Project_def project5_def)

lemma key_of_fault_env:
  "get_lookup_cache_key mgr (env\<lparr>cache_fault := f\<rparr>) kwargs = get_lookup_cache_key mgr env kwargs"
  by (simp add: get_lookup_cache_key_def)

text \<open>The second save of project 5, under the slug \<^verbatim>\<open>bar\<close>, from a state that tracks the
  slug \<^verbatim>\<open>foo\<close> and holds its pointer entry, with a cache backend that raises.\<close>

lemma second_save_write_fault:
  assumes "tracked w (Suc 0) = Some [(''slug'', SStr ''foo'')]"
      and "cache w (''modelcache:Project:slug=foo'', Some ''v1'') = Some (PScalar (SInt 5))"
  shows "fst (post_save projects (env_ok\<lparr>cache_fault := scalar_write_fault\<rparr>) (project5 ''bar'') w)
           = Inl (BackendError ''cache unreachable'')"
    and "events_since w (snd (post_save projects (env_ok\<lparr>cache_fault := scalar_write_fault\<rparr>) (project5 ''bar'') w))
           = [CacheSet ''modelcache:Project:slug=bar'' (PScalar (SInt 5)) 300 (Some ''v1'')]"
    and "cache (snd (post_save projects (env_ok\<lparr>cache_fault := scalar_write_fault\<rparr>) (project5 ''bar'') w))
           (''modelcache:Project:slug=foo'', Some ''v1'') = Some (PScalar (SInt 5))"
  using assms
  by (simp_all add: post_save_def projects_facts project5_reads slug_key key_of_fault_env
        cache_set_def scalar_write_fault_def Let_def emit_def events_since_def projects_keys(3))

lemma second_save_delete_fault:
  assumes "tracked w (Suc 0) = Some [(''slug'', SStr ''foo'')]"
      and "cache w (''modelcache:Project:slug=foo'', Some ''v1'') = Some (PScalar (SInt 5))"
  shows "fst (post_save projects (env_ok\<lparr>cache_fault := delete_fault\<rparr>) (project5 ''bar'') w)
           = Inl (BackendError ''cache unreachable'')"
    and "cache (snd (post_save projects (env_ok\<lparr>cache_fault := delete_fault\<rparr>) (project5 ''bar'') w))
           (''modelcache:Project:slug=foo'', Some ''v1'') = Some (PScalar (SInt 5))"
  using assms
  by (simp_all add: post_save_def projects_facts project5_reads slug_key id_key key_of_fault_env
        cache_set_def cache_delete_def delete_fault_def Let_def emit_def store_object_def
        projects_keys(3))

lemma first_save_state:
  "tracked (snd (post_save projects env_ok (project5 ''foo'') world0)) (Suc 0) = Some [(''slug'', SStr ''foo'')]"
  "cache (snd (post_save projects env_ok (project5 ''foo'') world0))
     (''modelcache:Project:slug=foo'', Some ''v1'') = Some (PScalar (SInt 5))"
  using first_save_tracked by (simp_all add: project5_reads first_save_cache)

text \<open>
  C7, as stated, fails: \<^verbatim>\<open>__post_delete\<close> computes the pointer keys from the values the
  instance has now. Project 5 is saved with the slug \<^verbatim>\<open>foo\<close>, its slug is set to \<^verbatim>\<open>bar\<close> and
  it is deleted: the hook returns normally and the pointer entry of \<^verbatim>\<open>slug=foo\<close> is still in
  the cache. And with a cache backend whose deletions raise, the hook ends at its first
  \<^verbatim>\<open>cache.delete\<close> and the value entry stays.
\<close>

theorem post_delete_leaves_earlier_pointer:
  "fst (post_delete projects env_ok (project5 ''bar'')
          (snd (post_save projects env_ok (project5 ''foo'') world0))) = Inr ()
   \<and> cache (snd (post_delete projects env_ok (project5 ''bar'')
                  (snd (post_save projects env_ok (project5 ''foo'') world0))))
        (''modelcache:Project:slug=foo'', Some ''v1'') = Some (PScalar (SInt 5))
   \<and> fst (post_delete projects (env_ok\<lparr>cache_fault := delete_fault\<rparr>) (project5 ''foo'')
          (snd (post_save projects env_ok (project5 ''foo'') world0)))
       = Inl (BackendError ''cache unreachable'')
   \<and> cache (snd (post_delete projects (env_ok\<lparr>cache_fault := delete_fault\<rparr>) (project5 ''foo'')
                  (snd (post_save projects env_ok (project5 ''foo'') world0))))
        (''modelcache:Project:id=5'', Some ''v1'') = Some (PInst ((project5 ''foo'')\<lparr>inst_db := None\<rparr>))"
  by (simp add: post_delete_def projects_facts project5_reads slug_key id_key key_of_fault_env
        cache_delete_def env_ok_no_fault delete_fault_def Let_def emit_def first_save_cache
        projects_keys(3))

text \<open>
  C7, amended. When no deletion on the cache backend raises and the cacheable fields of the
  instance can be read (as \<open>cur\<close>), \<^verbatim>\<open>__post_delete\<close> returns normally, having called
  \<^verbatim>\<open>cache.delete\<close> on the pointer entry of every cacheable field but the primary key, under
  the field's current value and in the order of \<^verbatim>\<open>cache_fields\<close>, and then on the value
  entry of the primary key; afterwards none of these keys is in the cache.
\<close>

theorem post_delete_removes_entries:
  assumes "\<forall>k ver. cache_fault env (CacheDelete k ver) = None"
      and "field_values mgr i (cache_fields mgr) = Inr cur"
  shows "fst (post_delete mgr env i w) = Inr ()
       \<and> events_since w (snd (post_delete mgr env i w))
           = map (\<lambda>kv. CacheDelete (pointer_key mgr env kv) (cache_version mgr)) (filter (non_pk mgr) cur)
             @ [CacheDelete (value_key mgr env (inst_pk i)) (cache_version mgr)]
       \<and> (\<forall>kv \<in> set cur. non_pk mgr kv \<longrightarrow>
             cache (snd (post_delete mgr env i w)) (pointer_key mgr env kv, cache_version mgr) = None)
       \<and> cache (snd (post_delete mgr env i w)) (value_key mgr env (inst_pk i), cache_version mgr) = None"
  using post_delete_run[OF assms, of w]
  by (auto simp: events_since_append delete_calls_def)

theorem post_delete_removes_entries_witness:
  "field_values projects (project5 ''foo'') (cache_fields projects) = Inr [(''slug'', SStr ''foo'')]
   \<and> fst (post_delete projects env_ok (project5 ''foo'') (snd (post_save projects env_ok (project5 ''foo'') world0))) = Inr ()
   \<and> events_since (snd (post_save projects env_ok (project5 ''foo'') world0))
        (snd (post_delete projects env_ok (project5 ''foo'') (snd (post_save projects env_ok (project5 ''foo'') world0))))
       = [CacheDelete ''modelcache:Project:slug=foo'' (Some ''v1''), CacheDelete ''modelcache:Project:id=5'' (Some ''v1'')]
   \<and> cache (snd (post_delete projects env_ok (project5 ''foo'') (snd (post_save projects env_ok (project5 ''foo'') world0))))
        (''modelcache:Project:slug=foo'', Some ''v1'') = None
   \<and> cache (snd (post_delete projects env_ok (project5 ''foo'') (snd (post_save projects env_ok (project5 ''foo'') world0))))
        (''modelcache:Project:id=5'', Some ''v1'') = None"
proof -
  have d: "\<forall>k ver. cache_fault env_ok (CacheDelete k ver) = None" by (simp add: env_ok_no_fault)
  have pk: "inst_pk (project5 ''foo'') = SInt 5" by (simp add: project5_def)
  show ?thesis
    using post_delete_removes_entries[OF d project5_fields[of "''foo''"],
            of "snd (post_save projects env_ok (project5 ''foo'') world0)"]
    by (simp add: projects_keys pk project5_fields)
qed

text \<open>
  C1, as stated, fails when the cache backend raises: the pointer writes and the
  deletions of \<^verbatim>\<open>__post_save\<close> stand outside its \<^verbatim>\<open>try\<close>. Project 5 is saved with the slug
  \<^verbatim>\<open>foo\<close>, which records the tracked state, and saved again with the slug \<^verbatim>\<open>bar\<close>. When
  the pointer write of the second save raises, the hook ends there, no deletion is
  called and the pointer entry of \<^verbatim>\<open>slug=foo\<close> stays; when the deletion raises, the entry
  stays as well.
\<close>

theorem post_save_fault_keeps_stale_pointer:
  "tracked (snd (post_save projects env_ok (project5 ''foo'') world0)) (inst_id (project5 ''bar''))
     = Some [(''slug'', SStr ''foo'')]
   \<and> fst (post_save projects (env_ok\<lparr>cache_fault := scalar_write_fault\<rparr>) (project5 ''bar'')
          (snd (post_save projects env_ok (project5 ''foo'') world0)))
       = Inl (BackendError ''cache unreachable'')
   \<and> CacheDelete ''modelcache:Project:slug=foo'' (Some ''v1'')
       \<notin> set (events_since (snd (post_save projects env_ok (project5 ''foo'') world0))
                (snd (post_save projects (env_ok\<lparr>cache_fault := scalar_write_fault\<rparr>) (project5 ''bar'')
                       (snd (post_save projects env_ok (project5 ''foo'') world0)))))
   \<and> cache (snd (post_save projects (env_ok\<lparr>cache_fault := scalar_write_fault\<rparr>) (project5 ''bar'')
                  (snd (post_save projects env_ok (project5 ''foo'') world0))))
        (''modelcache:Project:slug=foo'', Some ''v1'') = Some (PScalar (SInt 5))
   \<and> fst (post_save projects (env_ok\<lparr>cache_fault := delete_fault\<rparr>) (project5 ''bar'')
          (snd (post_save projects env_ok (project5 ''foo'') world0)))
       = Inl (BackendError ''cache unreachable'')
   \<and> cache (snd (post_save projects (env_ok\<lparr>cache_fault := delete_fault\<rparr>) (project5 ''bar'')
                  (snd (post_save projects env_ok (project5 ''foo'') world0))))
        (''modelcache:Project:slug=foo'', Some ''v1'') = Some (PScalar (SInt 5))"
  using first_save_tracked
        second_save_write_fault[OF first_save_state]
        second_save_delete_fault[OF first_save_state]
  by simp

text \<open>
  C1, amended. Let the tracked state of an instance hold the value \<open>old\<close> for a cacheable
  field for which the instance now reads a different value, as it does on the second of
  two saves between which the field changed. When the pointer writes and the deletions on
  the cache backend do not raise and the cacheable fields can be read, \<^verbatim>\<open>__post_save\<close>
  returns normally, has called \<^verbatim>\<open>cache.delete\<close> on the pointer entry keyed by the old value,
  and leaves no entry under that key.
\<close>

theorem post_save_deletes_stale_pointer:
  assumes "\<forall>k s t ver. cache_fault env (CacheSet k (PScalar s) t ver) = None"
      and "\<forall>k ver. cache_fault env (CacheDelete k ver) = None"
      and "field_values mgr i (cache_fields mgr) = Inr cur"
      and "tracked w (inst_id i) = Some snap"
      and "(f, new) \<in> set cur"
      and "map_of snap f = Some old"
      and "old \<noteq> new"
  shows "fst (post_save mgr env i w) = Inr ()
       \<and> CacheDelete (pointer_key mgr env (f, old)) (cache_version mgr)
           \<in> set (events_since w (snd (post_save mgr env i w)))
       \<and> cache (snd (post_save mgr env i w)) (pointer_key mgr env (f, old), cache_version mgr) = None"
proof -
  note run = post_save_run[OF assms(1-3), of w]
  have st: "(f, old) \<in> set (stale_of snap cur)"
    using assms(5-7) by (rule stale_of_mem)
  have ev: "events_since w (snd (post_save mgr env i w)) = save_calls mgr env i (Some snap) cur"
    using run assms(4) by (simp add: events_since_append)
  have "CacheDelete (pointer_key mgr env (f, old)) (cache_version mgr) \<in> set (stale_deletes mgr env (Some snap) cur)"
    using st by (simp add: stale_deletes_def)
  then have mem: "CacheDelete (pointer_key mgr env (f, old)) (cache_version mgr)
           \<in> set (events_since w (snd (post_save mgr env i w)))"
    by (simp add: ev save_calls_def)
  have gone: "cache (snd (post_save mgr env i w)) (pointer_key mgr env (f, old), cache_version mgr) = None"
    using run assms(4) st by blast
  from run mem gone show ?thesis by simp
qed

theorem post_save_deletes_stale_pointer_witness:
  "tracked (snd (post_save projects env_ok (project5 ''foo'') world0)) (inst_id (project5 ''bar''))
     = Some [(''slug'', SStr ''foo'')]
   \<and> field_values projects (project5 ''bar'') (cache_fields projects) = Inr [(''slug'', SStr ''bar'')]
   \<and> fst (post_save projects env_ok (project5 ''bar'') (snd (post_save projects env_ok (project5 ''foo'') world0))) = Inr ()
   \<and> CacheDelete ''modelcache:Project:slug=foo'' (Some ''v1'')
       \<in> set (events_since (snd (post_save projects env_ok (project5 ''foo'') world0))
                (snd (post_save projects env_ok (project5 ''bar'') (snd (post_save projects env_ok (project5 ''foo'') world0)))))
   \<and> cache (snd (post_save projects env_ok (project5 ''bar'') (snd (post_save projects env_ok (project5 ''foo'') world0))))
        (''modelcache:Project:slug=foo'', Some ''v1'') = None"
proof -
  have m: "(''slug'', SStr ''bar'') \<in> set [(''slug'', SStr ''bar'')]" by simp
  have o: "map_of [(''slug'', SStr ''foo'')] ''slug'' = Some (SStr ''foo'')" by simp
  have n: "SStr ''foo'' \<noteq> SStr ''bar''" by simp
  show ?thesis
    using post_save_deletes_stale_pointer[OF env_ok_sets env_ok_dels project5_fields[of "''bar''"]
            first_save_tracked m o n]
    by (simp add: projects_keys first_save_tracked project5_fields)
qed




section \<open>Properties of the cached lookup\<close>

lemma manager_get_quiet: "no_cache_read w (snd (manager_get mgr env kwargs w))"
proof -
  have e: "no_cache_read w (emit (StoreGet kwargs) w)" by (simp add: no_cache_read_emit)
  have "no_cache_read w (snd (cache_state mgr r (emit (StoreGet kwargs) w)))" for r
    using e cache_state_quiet by (rule no_cache_read_trans)
  with e show ?thesis
    by (auto simp: manager_get_def post_init_def Let_def case_prod_beta split: sum.splits)
qed

lemma manager_get_frame:
  "trace (snd (manager_get mgr env kwargs w)) = trace w @ [StoreGet kwargs]"
  "cache (snd (manager_get mgr env kwargs w)) = cache w"
  by (auto simp: manager_get_def post_init_def cache_state_def Let_def case_prod_beta emit_simps split: sum.splits)

lemma manager_get_error:
  "store_get env kwargs = Inl e \<Longrightarrow> manager_get mgr env kwargs w = (Inl e, emit (StoreGet kwargs) w)"
  by (simp add: manager_get_def Let_def)


lemma cache_get_frame: "snd (cache_get env k ver w) = emit (CacheGet k ver) w"
  by (simp add: cache_get_def Let_def split: option.splits)

lemma get_from_cache_cacheable:
  assumes "cache_fields mgr \<noteq> []"
      and "lookup_field mgr key0 \<in> set (cache_fields mgr) \<or> lookup_field mgr key0 = pk_name (mgr_model mgr)"
  shows "get_from_cache (Suc n) mgr env [(key0, value0)] w =
     (case fst (cache_get env (get_lookup_cache_key mgr env [(lookup_field mgr key0, PScalar (lookup_value value0))])
                  (cache_version mgr) w) of
        Inl e \<Rightarrow> Some (Inl e, emit (CacheGet (get_lookup_cache_key mgr env [(lookup_field mgr key0, PScalar (lookup_value value0))]) (cache_version mgr)) w)
      | Inr None \<Rightarrow>
          Some (case manager_get mgr env [(key0, value0)]
                       (emit (CacheGet (get_lookup_cache_key mgr env [(lookup_field mgr key0, PScalar (lookup_value value0))]) (cache_version mgr)) w) of
                  (Inl e, w2) \<Rightarrow> (Inl e, w2)
                | (Inr result, w2) \<Rightarrow>
                    (case post_save mgr env result w2 of
                       (Inl e, w3) \<Rightarrow> (Inl e, w3)
                     | (Inr u, w3) \<Rightarrow> (Inr result, w3)))
      | Inr (Some retval) \<Rightarrow>
          (let w1 = emit (CacheGet (get_lookup_cache_key mgr env [(lookup_field mgr key0, PScalar (lookup_value value0))]) (cache_version mgr)) w
           in if lookup_field mgr key0 \<noteq> pk_name (mgr_model mgr)
              then get_from_cache n mgr env [(pk_name (mgr_model mgr), retval)] w1
              else (case retval of
                      PScalar s \<Rightarrow> Some (invalid_type mgr env [(key0, value0)] retval w1)
                    | PInst r \<Rightarrow>
                        if inst_class r \<noteq> model_name (mgr_model mgr)
                        then Some (invalid_type mgr env [(key0, value0)] retval w1)
                        else (case py_int (lookup_value value0) of
                                Inl e \<Rightarrow> Some (Inl e, w1)
                              | Inr m \<Rightarrow>
                                  if SInt m \<noteq> inst_pk r
                                  then Some (invalid_value mgr env [(key0, value0)] retval w1)
                                  else Some (Inr (r\<lparr>inst_db := db_for_read env [(key0, value0)]\<rparr>), w1)))))"
proof -
  let ?K = "get_lookup_cache_key mgr env [(lookup_field mgr key0, PScalar (lookup_value value0))]"
  obtain res w1 where cg: "cache_get env ?K (cache_version mgr) w = (res, w1)"
    by (cases "cache_get env ?K (cache_version mgr) w")
  with cache_get_frame[of env ?K "cache_version mgr" w]
  have w1: "w1 = emit (CacheGet ?K (cache_version mgr)) w" by simp
  show ?thesis
    using assms cg w1
    by (auto simp: get_from_cache.simps Let_def split: sum.splits option.splits pyval.splits)
qed






lemma invalid_type_quiet: "no_cache_read w (snd (invalid_type mgr env kwargs retval w))"
proof -
  have "no_cache_read w (emit (LogInvalidValue retval) w)" by (simp add: no_cache_read_emit)
  then have "no_cache_read w (snd (manager_get mgr env kwargs (emit (LogInvalidValue retval) w)))"
    using manager_get_quiet by (rule no_cache_read_trans)
  then show ?thesis by (simp add: invalid_type_def no_cache_read_refl)
qed

lemma invalid_value_quiet: "no_cache_read w (snd (invalid_value mgr env kwargs retval w))"
proof -
  have "no_cache_read w (emit (LogInvalidValue retval) w)" by (simp add: no_cache_read_emit)
  then have "no_cache_read w (snd (manager_get mgr env kwargs (emit (LogInvalidValue retval) w)))"
    using manager_get_quiet by (rule no_cache_read_trans)
  then show ?thesis by (simp add: invalid_value_def no_cache_read_refl)
qed

lemma lookup_field_pk_name:
  assumes "\<not> endswith (pk_name (mgr_model mgr)) ''__exact''"
  shows "lookup_field mgr (pk_name (mgr_model mgr)) = pk_name (mgr_model mgr)"
  using assms by (simp add: lookup_field_def Let_def)

lemma some_pairI:
  "X = Some p \<Longrightarrow> Q (snd p) \<Longrightarrow> \<exists>res w'. X = Some (res, w') \<and> Q w'"
  by (cases p) auto

text \<open>The primary-key path reads the cache once: after that read, no call it makes is a
  read of the cache.\<close>

lemma get_from_cache_pk_path:
  assumes cf: "cache_fields mgr \<noteq> []"
      and wf: "\<not> endswith (pk_name (mgr_model mgr)) ''__exact''"
  shows "\<exists>res w'. get_from_cache (Suc n) mgr env [(pk_name (mgr_model mgr), value0)] w = Some (res, w')
           \<and> no_cache_read (emit (CacheGet (value_key mgr env (lookup_value value0)) (cache_version mgr)) w) w'"
proof -
  let ?pkn = "pk_name (mgr_model mgr)"
  let ?K = "value_key mgr env (lookup_value value0)"
  let ?w1 = "emit (CacheGet ?K (cache_version mgr)) w"
  let ?kw = "[(?pkn, value0)]"
  let ?G = "get_from_cache (Suc n) mgr env ?kw w"
  have lf: "lookup_field mgr ?pkn = ?pkn" using wf by (rule lookup_field_pk_name)
  have key: "lookup_field mgr ?pkn \<in> set (cache_fields mgr) \<or> lookup_field mgr ?pkn = ?pkn"
    using lf by simp
  have K: "get_lookup_cache_key mgr env [(lookup_field mgr ?pkn, PScalar (lookup_value value0))] = ?K"
    by (simp only: lf value_key_def)
  note unfold = get_from_cache_cacheable[OF cf key, of n env value0 w, unfolded K]
  show ?thesis
  proof (cases "fst (cache_get env ?K (cache_version mgr) w)")
    case (Inl e)
    then have "?G = Some (Inl e, ?w1)" by (simp add: unfold)
    then show ?thesis by (rule some_pairI) (simp add: no_cache_read_refl)
  next
    case (Inr hit)
    show ?thesis
    proof (cases hit)
      case None
      let ?m = "manager_get mgr env ?kw ?w1"
      have g: "?G = Some (case ?m of
                  (Inl e, w2) \<Rightarrow> (Inl e, w2)
                | (Inr result, w2) \<Rightarrow>
                    (case post_save mgr env result w2 of
                       (Inl e, w3) \<Rightarrow> (Inl e, w3)
                     | (Inr u, w3) \<Rightarrow> (Inr result, w3)))"
        using Inr None by (simp add: unfold)
      have q1: "no_cache_read ?w1 (snd ?m)" by (rule manager_get_quiet)
      have q2: "no_cache_read ?w1 (snd (post_save mgr env r (snd ?m)))" for r
        using q1 post_save_quiet by (rule no_cache_read_trans)
      from g show ?thesis
      proof (rule some_pairI)
        show "no_cache_read ?w1 (snd (case ?m of
                  (Inl e, w2) \<Rightarrow> (Inl e, w2)
                | (Inr result, w2) \<Rightarrow>
                    (case post_save mgr env result w2 of
                       (Inl e, w3) \<Rightarrow> (Inl e, w3)
                     | (Inr u, w3) \<Rightarrow> (Inr result, w3))))"
          using q1 q2 by (simp add: case_prod_beta split: sum.splits)
      qed
    next
      case (Some retval)
      have g: "?G = (case retval of
                      PScalar s \<Rightarrow> Some (invalid_type mgr env ?kw retval ?w1)
                    | PInst r \<Rightarrow>
                        if inst_class r \<noteq> model_name (mgr_model mgr)
                        then Some (invalid_type mgr env ?kw retval ?w1)
                        else (case py_int (lookup_value value0) of
                                Inl e \<Rightarrow> Some (Inl e, ?w1)
                              | Inr m \<Rightarrow>
                                  if SInt m \<noteq> inst_pk r
                                  then Some (invalid_value mgr env ?kw retval ?w1)
                                  else Some (Inr (r\<lparr>inst_db := db_for_read env ?kw\<rparr>), ?w1)))"
        using Inr Some by (simp add: unfold lf Let_def)
      show ?thesis
      proof (cases retval)
        case (PScalar sc)
        with g have "?G = Some (invalid_type mgr env ?kw retval ?w1)" by simp
        then show ?thesis by (rule some_pairI) (rule invalid_type_quiet)
      next
        case (PInst r)
        show ?thesis
        proof (cases "inst_class r \<noteq> model_name (mgr_model mgr)")
          case True
          with g PInst have "?G = Some (invalid_type mgr env ?kw retval ?w1)" by simp
          then show ?thesis by (rule some_pairI) (rule invalid_type_quiet)
        next
          case False
          show ?thesis
          proof (cases "py_int (lookup_value value0)")
            case (Inl e)
            with g PInst False have "?G = Some (Inl e, ?w1)" by simp
            then show ?thesis by (rule some_pairI) (simp add: no_cache_read_refl)
          next
            case (Inr m)
            show ?thesis
            proof (cases "SInt m \<noteq> inst_pk r")
              case True
              with g PInst False Inr have "?G = Some (invalid_value mgr env ?kw retval ?w1)" by simp
              then show ?thesis by (rule some_pairI) (rule invalid_value_quiet)
            next
              case eq: False
              with g PInst False Inr have "?G = Some (Inr (r\<lparr>inst_db := db_for_read env ?kw\<rparr>), ?w1)"
                by simp
              then show ?thesis by (rule some_pairI) (simp add: no_cache_read_refl)
            qed
          qed
        qed
      qed
    qed
  qed
qed


text \<open>
  C2. A cached lookup by a cacheable field other than the primary key that hits the cache
  takes the cached value for the primary key and calls \<^verbatim>\<open>get_from_cache\<close> again with it
  under the primary-key name. That call returns, and the whole lookup reads the cache
  exactly twice: the pointer entry, then the value entry of the primary key. When the
  second read finds an instance of the model whose primary key is the cached value, the
  lookup returns that instance, bound to the database the router names.
\<close>

theorem get_from_cache_secondary_hit:
  fixes mgr :: manager and env :: env and key0 :: string and value0 :: pyval and w :: world
  defines "K \<equiv> get_lookup_cache_key mgr env [(lookup_field mgr key0, PScalar (lookup_value value0))]"
  assumes cf: "cache_fields mgr \<noteq> []"
      and sec: "lookup_field mgr key0 \<in> set (cache_fields mgr)"
      and notpk: "lookup_field mgr key0 \<noteq> pk_name (mgr_model mgr)"
      and hit: "fst (cache_get env K (cache_version mgr) w) = Inr (Some retval)"
      and wf: "\<not> endswith (pk_name (mgr_model mgr)) ''__exact''"
  shows "get_from_cache (Suc (Suc n)) mgr env [(key0, value0)] w
           = get_from_cache (Suc n) mgr env [(pk_name (mgr_model mgr), retval)]
               (emit (CacheGet K (cache_version mgr)) w)
       \<and> (\<exists>res w'. get_from_cache (Suc (Suc n)) mgr env [(key0, value0)] w = Some (res, w')
              \<and> filter is_cache_get (events_since w w')
                  = [CacheGet K (cache_version mgr),
                     CacheGet (value_key mgr env (lookup_value retval)) (cache_version mgr)])
       \<and> (\<forall>r m. fst (cache_get env (value_key mgr env (lookup_value retval)) (cache_version mgr)
                        (emit (CacheGet K (cache_version mgr)) w)) = Inr (Some (PInst r))
              \<and> inst_class r = model_name (mgr_model mgr)
              \<and> py_int (lookup_value retval) = Inr m \<and> SInt m = inst_pk r \<longrightarrow>
            get_from_cache (Suc (Suc n)) mgr env [(key0, value0)] w
              = Some (Inr (r\<lparr>inst_db := db_for_read env [(pk_name (mgr_model mgr), retval)]\<rparr>),
                      emit (CacheGet (value_key mgr env (lookup_value retval)) (cache_version mgr))
                        (emit (CacheGet K (cache_version mgr)) w)))"
proof -
  let ?w1 = "emit (CacheGet K (cache_version mgr)) w"
  let ?K2 = "value_key mgr env (lookup_value retval)"
  have key: "lookup_field mgr key0 \<in> set (cache_fields mgr) \<or> lookup_field mgr key0 = pk_name (mgr_model mgr)"
    using sec by simp
  have step: "get_from_cache (Suc (Suc n)) mgr env [(key0, value0)] w
           = get_from_cache (Suc n) mgr env [(pk_name (mgr_model mgr), retval)] ?w1"
    using hit notpk by (simp add: get_from_cache_cacheable[OF cf key] K_def Let_def)
  from get_from_cache_pk_path[OF cf wf, of n env retval ?w1]
  obtain res w' where
    r: "get_from_cache (Suc n) mgr env [(pk_name (mgr_model mgr), retval)] ?w1 = Some (res, w')"
    and q: "no_cache_read (emit (CacheGet ?K2 (cache_version mgr)) ?w1) w'"
    by blast
  from q obtain xs where
    "trace w' = trace w @ [CacheGet K (cache_version mgr), CacheGet ?K2 (cache_version mgr)] @ xs"
    and "filter is_cache_get xs = []"
    by (auto simp: no_cache_read_iff emit_simps)
  then have "filter is_cache_get (events_since w w')
               = [CacheGet K (cache_version mgr), CacheGet ?K2 (cache_version mgr)]"
    by (simp add: events_since_def)
  with step r have reads: "\<exists>res w'. get_from_cache (Suc (Suc n)) mgr env [(key0, value0)] w = Some (res, w')
              \<and> filter is_cache_get (events_since w w')
                  = [CacheGet K (cache_version mgr), CacheGet ?K2 (cache_version mgr)]"
    by simp
  let ?pkn = "pk_name (mgr_model mgr)"
  have lf: "lookup_field mgr ?pkn = ?pkn" using wf by (rule lookup_field_pk_name)
  have key2: "lookup_field mgr ?pkn \<in> set (cache_fields mgr) \<or> lookup_field mgr ?pkn = ?pkn"
    using lf by simp
  have K2: "get_lookup_cache_key mgr env [(lookup_field mgr ?pkn, PScalar (lookup_value retval))] = ?K2"
    by (simp only: lf value_key_def)
  note unfold2 = get_from_cache_cacheable[OF cf key2, of n env retval ?w1, unfolded K2]
  have valid: "get_from_cache (Suc (Suc n)) mgr env [(key0, value0)] w
              = Some (Inr (r\<lparr>inst_db := db_for_read env [(?pkn, retval)]\<rparr>),
                      emit (CacheGet ?K2 (cache_version mgr)) ?w1)"
    if "fst (cache_get env ?K2 (cache_version mgr) ?w1) = Inr (Some (PInst r))
        \<and> inst_class r = model_name (mgr_model mgr)
        \<and> py_int (lookup_value retval) = Inr m \<and> SInt m = inst_pk r" for r m
    using that by (simp add: step unfold2 lf Let_def)
  from step reads valid show ?thesis by blast
qed

theorem get_from_cache_secondary_hit_witness:
  "lookup_field projects ''slug'' \<in> set (cache_fields projects)
   \<and> lookup_field projects ''slug'' \<noteq> pk_name (mgr_model projects)
   \<and> fst (cache_get env_ok ''modelcache:Project:slug=foo'' (Some ''v1'')
            (snd (post_save projects env_ok (project5 ''foo'') world0))) = Inr (Some (PScalar (SInt 5)))
   \<and> get_from_cache (Suc (Suc 0)) projects env_ok [(''slug'', PScalar (SStr ''foo''))]
        (snd (post_save projects env_ok (project5 ''foo'') world0))
       = Some (Inr (project5 ''foo''),
               emit (CacheGet ''modelcache:Project:id=5'' (Some ''v1''))
                 (emit (CacheGet ''modelcache:Project:slug=foo'' (Some ''v1''))
                   (snd (post_save projects env_ok (project5 ''foo'') world0))))
   \<and> (\<exists>res w'. get_from_cache (Suc (Suc 0)) projects env_ok [(''slug'', PScalar (SStr ''foo''))]
                  (snd (post_save projects env_ok (project5 ''foo'') world0)) = Some (res, w')
          \<and> filter is_cache_get (events_since (snd (post_save projects env_ok (project5 ''foo'') world0)) w')
              = [CacheGet ''modelcache:Project:slug=foo'' (Some ''v1''),
                 CacheGet ''modelcache:Project:id=5'' (Some ''v1'')])"
proof -
  let ?w = "snd (post_save projects env_ok (project5 ''foo'') world0)"
  let ?w1 = "emit (CacheGet ''modelcache:Project:slug=foo'' (Some ''v1'')) ?w"
  have cf: "cache_fields projects \<noteq> []" by (simp add: projects_facts)
  have sec: "lookup_field projects ''slug'' \<in> set (cache_fields projects)"
    by (simp add: lookup_field_slug projects_facts)
  have notpk: "lookup_field projects ''slug'' \<noteq> pk_name (mgr_model projects)"
    by (simp add: lookup_field_slug projects_facts)
  have hit0: "fst (cache_get env_ok ''modelcache:Project:slug=foo'' (Some ''v1'') ?w) = Inr (Some (PScalar (SInt 5)))"
    by (simp add: cache_get_def env_ok_no_fault first_save_cache Let_def)
  have hit: "fst (cache_get env_ok (get_lookup_cache_key projects env_ok
                [(lookup_field projects ''slug'', PScalar (lookup_value (PScalar (SStr ''foo''))))])
                (cache_version projects) ?w) = Inr (Some (PScalar (SInt 5)))"
    using hit0 by (simp add: lookup_field_slug lookup_value_def slug_key projects_keys)
  have wf: "\<not> endswith (pk_name (mgr_model projects)) ''__exact''"
    by (simp add: projects_facts endswith_def)
  note t = get_from_cache_secondary_hit[where mgr = projects and env = env_ok and ?key0.0 = "''slug''"
            and ?value0.0 = "PScalar (SStr ''foo'')" and w = ?w and n = 0 and retval = "PScalar (SInt 5)",
            OF cf sec notpk hit wf]
  have second: "fst (cache_get env_ok ''modelcache:Project:id=5'' (Some ''v1'') ?w1)
                  = Inr (Some (PInst ((project5 ''foo'')\<lparr>inst_db := None\<rparr>)))"
    by (simp add: cache_get_def env_ok_no_fault first_save_cache Let_def emit_simps)
  have ok: "inst_class ((project5 ''foo'')\<lparr>inst_db := None\<rparr>) = model_name (mgr_model projects)"
           "py_int (lookup_value (PScalar (SInt 5))) = Inr 5"
           "SInt 5 = inst_pk ((project5 ''foo'')\<lparr>inst_db := None\<rparr>)"
           "(project5 ''foo'')\<lparr>inst_db := None\<rparr>\<lparr>inst_db := db_for_read env_ok [(pk_name (mgr_model projects), PScalar (SInt 5))]\<rparr>
              = project5 ''foo''"
    by (simp_all add: project5_def projects_facts lookup_value_def env_ok_def)
  have keys: "get_lookup_cache_key projects env_ok
                [(lookup_field projects ''slug'', PScalar (lookup_value (PScalar (SStr ''foo''))))]
                = ''modelcache:Project:slug=foo''"
             "value_key projects env_ok (lookup_value (PScalar (SInt 5))) = ''modelcache:Project:id=5''"
    by (simp_all add: lookup_field_slug lookup_value_def slug_key projects_keys)
  note t2 = t[THEN conjunct2, THEN conjunct1, unfolded keys projects_keys(3)]
  note t3 = t[THEN conjunct2, THEN conjunct2, unfolded keys projects_keys(3)]
  from t2 have reads: "\<exists>res w'. get_from_cache (Suc (Suc 0)) projects env_ok [(''slug'', PScalar (SStr ''foo''))] ?w = Some (res, w')
          \<and> filter is_cache_get (events_since ?w w')
              = [CacheGet ''modelcache:Project:slug=foo'' (Some ''v1''),
                 CacheGet ''modelcache:Project:id=5'' (Some ''v1'')]"
    by blast
  from t3 have "\<forall>r m. fst (cache_get env_ok ''modelcache:Project:id=5'' (Some ''v1'') ?w1) = Inr (Some (PInst r))
              \<and> inst_class r = model_name (mgr_model projects)
              \<and> py_int (lookup_value (PScalar (SInt 5))) = Inr m \<and> SInt m = inst_pk r \<longrightarrow>
            get_from_cache (Suc (Suc 0)) projects env_ok [(''slug'', PScalar (SStr ''foo''))] ?w
              = Some (Inr (r\<lparr>inst_db := db_for_read env_ok [(pk_name (mgr_model projects), PScalar (SInt 5))]\<rparr>),
                      emit (CacheGet ''modelcache:Project:id=5'' (Some ''v1'')) ?w1)"
    by blast
  with second ok(1-3) have "get_from_cache (Suc (Suc 0)) projects env_ok [(''slug'', PScalar (SStr ''foo''))] ?w
              = Some (Inr ((project5 ''foo'')\<lparr>inst_db := None\<rparr>\<lparr>inst_db := db_for_read env_ok [(pk_name (mgr_model projects), PScalar (SInt 5))]\<rparr>),
                      emit (CacheGet ''modelcache:Project:id=5'' (Some ''v1'')) ?w1)"
    by blast
  then have result: "get_from_cache (Suc (Suc 0)) projects env_ok [(''slug'', PScalar (SStr ''foo''))] ?w
              = Some (Inr (project5 ''foo''), emit (CacheGet ''modelcache:Project:id=5'' (Some ''v1'')) ?w1)"
    by (simp only: ok(4))
  from sec notpk hit0 result reads show ?thesis by blast
qed

text \<open>
  C4, as stated, fails where the requested value has no integer reading: the comparison
  is \<^verbatim>\<open>int(value) != retval.pk\<close>, and \<^verbatim>\<open>int\<close> raises before anything is compared. The
  cache holds project 5 under the key of \<^verbatim>\<open>id=abc\<close>; outside debug mode the lookup by
  \<^verbatim>\<open>pk='abc'\<close> raises \<^verbatim>\<open>ValueError\<close>, with no log record and no lookup on the store.
\<close>

theorem get_from_cache_unreadable_pk_raises:
  "\<not> DEBUG env_ok
   \<and> inst_class (project5 ''bar'') = model_name (mgr_model projects)
   \<and> inst_pk (project5 ''bar'') \<noteq> SStr ''abc''
   \<and> cache poisoned_world (''modelcache:Project:id=abc'', Some ''v1'') = Some (PInst (project5 ''bar''))
   \<and> get_from_cache (Suc 0) projects env_ok [(''pk'', PScalar (SStr ''abc''))] poisoned_world
       = Some (Inl (ValueError ''invalid literal for int()''),
               emit (CacheGet ''modelcache:Project:id=abc'' (Some ''v1'')) poisoned_world)"
proof -
  have k: "get_lookup_cache_key projects env_ok [(''id'', PScalar (SStr ''abc''))] = ''modelcache:Project:id=abc''"
    by (simp add: get_lookup_cache_key_def make_key_def kwargs_bit_def prep_key_def prep_value_def
          smart_text_def projects_def Project_def env_ok_def)
  have i: "int_of_text ''abc'' = Inl (ValueError ''invalid literal for int()'')"
    by code_simp
  have c: "cache poisoned_world (''modelcache:Project:id=abc'', Some ''v1'') = Some (PInst (project5 ''bar''))"
    by (simp add: poisoned_world_def)
  have g: "fst (cache_get env_ok ''modelcache:Project:id=abc'' (Some ''v1'') poisoned_world)
             = Inr (Some (PInst (project5 ''bar'')))"
    by (simp add: cache_get_def env_ok_no_fault c Let_def)
  have cf: "cache_fields projects \<noteq> []" by (simp add: projects_facts)
  have key: "lookup_field projects ''pk'' \<in> set (cache_fields projects)
             \<or> lookup_field projects ''pk'' = pk_name (mgr_model projects)"
    by (simp add: lookup_field_pk projects_facts)
  have "get_from_cache (Suc 0) projects env_ok [(''pk'', PScalar (SStr ''abc''))] poisoned_world
       = Some (Inl (ValueError ''invalid literal for int()''),
               emit (CacheGet ''modelcache:Project:id=abc'' (Some ''v1'')) poisoned_world)"
    by (simp add: get_from_cache_cacheable[OF cf key] lookup_field_pk lookup_value_def k g i
          projects_keys(3) projects_facts Let_def project5_def)
  then show ?thesis
    by (simp add: c env_ok_def project5_def projects_facts)
qed

text \<open>
  C4, amended. On a hit by primary key, when the cached value is not an instance of the
  model, or the requested value reads as an integer that differs from the primary key of
  the cached instance, the cached value is not returned: in debug mode the lookup raises
  \<^verbatim>\<open>ValueError\<close>; otherwise it logs the value and returns what the backing store's
  \<^verbatim>\<open>get\<close> returns for the same arguments. When the cached value is an instance of the
  model and \<^verbatim>\<open>int\<close> raises on the requested value, that exception leaves the lookup in
  either mode, after the cache read alone.
\<close>

theorem get_from_cache_poisoned_hit:
  fixes mgr :: manager and env :: env and key0 :: string and value0 :: pyval and w :: world
  defines "K \<equiv> get_lookup_cache_key mgr env [(lookup_field mgr key0, PScalar (lookup_value value0))]"
  assumes cf: "cache_fields mgr \<noteq> []"
      and pk: "lookup_field mgr key0 = pk_name (mgr_model mgr)"
      and hit: "fst (cache_get env K (cache_version mgr) w) = Inr (Some retval)"
  shows "((\<forall>r. retval = PInst r \<longrightarrow>
              inst_class r \<noteq> model_name (mgr_model mgr)
              \<or> (\<exists>m. py_int (lookup_value value0) = Inr m \<and> SInt m \<noteq> inst_pk r)) \<longrightarrow>
          (DEBUG env \<longrightarrow>
            (\<exists>msg. get_from_cache (Suc n) mgr env [(key0, value0)] w
                     = Some (Inl (ValueError msg), emit (CacheGet K (cache_version mgr)) w)))
          \<and> (\<not> DEBUG env \<longrightarrow>
            get_from_cache (Suc n) mgr env [(key0, value0)] w
              = Some (manager_get mgr env [(key0, value0)]
                        (emit (LogInvalidValue retval) (emit (CacheGet K (cache_version mgr)) w)))))
       \<and> (\<forall>r e. retval = PInst r \<and> inst_class r = model_name (mgr_model mgr)
              \<and> py_int (lookup_value value0) = Inl e \<longrightarrow>
            get_from_cache (Suc n) mgr env [(key0, value0)] w
              = Some (Inl e, emit (CacheGet K (cache_version mgr)) w))"
proof -
  let ?w1 = "emit (CacheGet K (cache_version mgr)) w"
  let ?kw = "[(key0, value0)]"
  let ?G = "get_from_cache (Suc n) mgr env ?kw w"
  have key: "lookup_field mgr key0 \<in> set (cache_fields mgr) \<or> lookup_field mgr key0 = pk_name (mgr_model mgr)"
    using pk by simp
  have g: "?G = (case retval of
                      PScalar s \<Rightarrow> Some (invalid_type mgr env ?kw retval ?w1)
                    | PInst r \<Rightarrow>
                        if inst_class r \<noteq> model_name (mgr_model mgr)
                        then Some (invalid_type mgr env ?kw retval ?w1)
                        else (case py_int (lookup_value value0) of
                                Inl e \<Rightarrow> Some (Inl e, ?w1)
                              | Inr m \<Rightarrow>
                                  if SInt m \<noteq> inst_pk r
                                  then Some (invalid_value mgr env ?kw retval ?w1)
                                  else Some (Inr (r\<lparr>inst_db := db_for_read env ?kw\<rparr>), ?w1)))"
    using hit by (simp add: get_from_cache_cacheable[OF cf key, of n env value0 w, folded K_def] pk Let_def)
  have first: "(DEBUG env \<longrightarrow> (\<exists>msg. ?G = Some (Inl (ValueError msg), ?w1)))
          \<and> (\<not> DEBUG env \<longrightarrow> ?G = Some (manager_get mgr env ?kw (emit (LogInvalidValue retval) ?w1)))"
    if bad: "\<forall>r. retval = PInst r \<longrightarrow>
              inst_class r \<noteq> model_name (mgr_model mgr)
              \<or> (\<exists>m. py_int (lookup_value value0) = Inr m \<and> SInt m \<noteq> inst_pk r)"
  proof -
    have "?G = Some (invalid_type mgr env ?kw retval ?w1) \<or> ?G = Some (invalid_value mgr env ?kw retval ?w1)"
    proof (cases retval)
      case (PScalar sc)
      with g show ?thesis by simp
    next
      case (PInst r)
      show ?thesis
      proof (cases "inst_class r \<noteq> model_name (mgr_model mgr)")
        case True
        with g PInst show ?thesis by simp
      next
        case False
        with bad PInst obtain m where "py_int (lookup_value value0) = Inr m" "SInt m \<noteq> inst_pk r"
          by blast
        with g PInst False show ?thesis by simp
      qed
    qed
    then show ?thesis
      by (auto simp: invalid_type_def invalid_value_def)
  qed
  have second: "?G = Some (Inl e, ?w1)"
    if "retval = PInst r \<and> inst_class r = model_name (mgr_model mgr)
        \<and> py_int (lookup_value value0) = Inl e" for r e
    using that g by simp
  from first second show ?thesis by blast
qed

lemma show_int_7: "show_int 7 = ''7''"
  by code_simp

theorem get_from_cache_poisoned_hit_witness:
  "lookup_field projects ''pk'' = pk_name (mgr_model projects)
   \<and> fst (cache_get env_ok ''modelcache:Project:id=7'' (Some ''v1'')
            (world0\<lparr>cache := (cache world0)((''modelcache:Project:id=7'', Some ''v1'') \<mapsto> PInst (project5 ''bar''))\<rparr>))
       = Inr (Some (PInst (project5 ''bar'')))
   \<and> py_int (lookup_value (PScalar (SInt 7))) = Inr 7 \<and> SInt 7 \<noteq> inst_pk (project5 ''bar'')
   \<and> \<not> DEBUG env_ok
   \<and> get_from_cache (Suc 0) projects env_ok [(''pk'', PScalar (SInt 7))]
        (world0\<lparr>cache := (cache world0)((''modelcache:Project:id=7'', Some ''v1'') \<mapsto> PInst (project5 ''bar''))\<rparr>)
       = Some (Inl ObjectDoesNotExist,
               emit (StoreGet [(''pk'', PScalar (SInt 7))])
                 (emit (LogInvalidValue (PInst (project5 ''bar'')))
                   (emit (CacheGet ''modelcache:Project:id=7'' (Some ''v1''))
                     (world0\<lparr>cache := (cache world0)((''modelcache:Project:id=7'', Some ''v1'') \<mapsto> PInst (project5 ''bar''))\<rparr>))))
   \<and> DEBUG (env_ok\<lparr>DEBUG := True\<rparr>)
   \<and> py_int (lookup_value (PScalar (SStr ''abc''))) = Inl (ValueError ''invalid literal for int()'')
   \<and> get_from_cache (Suc 0) projects (env_ok\<lparr>DEBUG := True\<rparr>) [(''pk'', PScalar (SStr ''abc''))] poisoned_world
       = Some (Inl (ValueError ''invalid literal for int()''),
               emit (CacheGet ''modelcache:Project:id=abc'' (Some ''v1'')) poisoned_world)"
proof -
  let ?w = "world0\<lparr>cache := (cache world0)((''modelcache:Project:id=7'', Some ''v1'') \<mapsto> PInst (project5 ''bar''))\<rparr>"
  let ?dbg = "env_ok\<lparr>DEBUG := True\<rparr>"
  have k: "get_lookup_cache_key projects env_ok [(''id'', PScalar (SInt 7))] = ''modelcache:Project:id=7''"
    by (simp add: get_lookup_cache_key_def make_key_def kwargs_bit_def prep_key_def prep_value_def
          smart_text_def projects_def Project_def env_ok_def show_int_7)
  have ka: "get_lookup_cache_key projects ?dbg [(''id'', PScalar (SStr ''abc''))] = ''modelcache:Project:id=abc''"
    by (simp add: get_lookup_cache_key_def make_key_def kwargs_bit_def prep_key_def prep_value_def
          smart_text_def projects_def Project_def env_ok_def)
  have cf: "cache_fields projects \<noteq> []" by (simp add: projects_facts)
  have pk: "lookup_field projects ''pk'' = pk_name (mgr_model projects)"
    by (simp add: lookup_field_pk projects_facts)
  have hit0: "fst (cache_get env_ok ''modelcache:Project:id=7'' (Some ''v1'') ?w) = Inr (Some (PInst (project5 ''bar'')))"
    by (simp add: cache_get_def env_ok_no_fault Let_def)
  have hit: "fst (cache_get env_ok (get_lookup_cache_key projects env_ok
               [(lookup_field projects ''pk'', PScalar (lookup_value (PScalar (SInt 7))))])
               (cache_version projects) ?w) = Inr (Some (PInst (project5 ''bar'')))"
    using hit0 by (simp add: lookup_field_pk lookup_value_def k projects_keys(3))
  have hita: "fst (cache_get ?dbg (get_lookup_cache_key projects ?dbg
               [(lookup_field projects ''pk'', PScalar (lookup_value (PScalar (SStr ''abc''))))])
               (cache_version projects) poisoned_world) = Inr (Some (PInst (project5 ''bar'')))"
  proof -
    have f: "cache_fault ?dbg = (\<lambda>ev. None)" by (simp add: env_ok_def)
    have "fst (cache_get ?dbg ''modelcache:Project:id=abc'' (Some ''v1'') poisoned_world)
            = Inr (Some (PInst (project5 ''bar'')))"
      by (simp add: cache_get_def f poisoned_world_def Let_def)
    then show ?thesis
      by (simp only: lookup_field_pk lookup_value_def ka projects_keys(3) pyval.simps)
  qed
  have bad: "\<forall>r. PInst (project5 ''bar'') = PInst r \<longrightarrow>
                  inst_class r \<noteq> model_name (mgr_model projects)
                  \<or> (\<exists>m. py_int (lookup_value (PScalar (SInt 7))) = Inr m \<and> SInt m \<noteq> inst_pk r)"
    by (simp add: lookup_value_def project5_def)
  have nd: "\<not> DEBUG env_ok" "DEBUG ?dbg" by (simp_all add: env_ok_def)
  have st: "store_get env_ok [(''pk'', PScalar (SInt 7))] = Inl ObjectDoesNotExist"
    by (simp add: env_ok_def store5_def)
  have ia: "py_int (lookup_value (PScalar (SStr ''abc''))) = Inl (ValueError ''invalid literal for int()'')"
    unfolding lookup_value_def by code_simp
  have cls: "inst_class (project5 ''bar'') = model_name (mgr_model projects)"
    by (simp add: project5_def projects_facts)
  note t7 = get_from_cache_poisoned_hit[where mgr = projects and env = env_ok and ?key0.0 = "''pk''"
            and ?value0.0 = "PScalar (SInt 7)" and w = ?w and n = 0, OF cf pk hit, THEN conjunct1]
  note ta = get_from_cache_poisoned_hit[where mgr = projects and env = ?dbg and ?key0.0 = "''pk''"
            and ?value0.0 = "PScalar (SStr ''abc'')" and w = poisoned_world and n = 0, OF cf pk hita, THEN conjunct2]
  from t7 bad nd(1) have r7: "get_from_cache (Suc 0) projects env_ok [(''pk'', PScalar (SInt 7))] ?w
       = Some (manager_get projects env_ok [(''pk'', PScalar (SInt 7))]
                 (emit (LogInvalidValue (PInst (project5 ''bar'')))
                    (emit (CacheGet (get_lookup_cache_key projects env_ok
                       [(lookup_field projects ''pk'', PScalar (lookup_value (PScalar (SInt 7))))]) (cache_version projects)) ?w)))"
    by blast
  from ta ia cls have ra: "get_from_cache (Suc 0) projects ?dbg [(''pk'', PScalar (SStr ''abc''))] poisoned_world
       = Some (Inl (ValueError ''invalid literal for int()''),
               emit (CacheGet (get_lookup_cache_key projects ?dbg
                       [(lookup_field projects ''pk'', PScalar (lookup_value (PScalar (SStr ''abc''))))]) (cache_version projects)) poisoned_world)"
    by blast
  have i7: "py_int (lookup_value (PScalar (SInt 7))) = Inr 7" "SInt 7 \<noteq> inst_pk (project5 ''bar'')"
    by (simp_all add: lookup_value_def project5_def)
  from r7 ra pk hit0 nd ia i7 show ?thesis
    by (simp add: lookup_field_pk lookup_value_def k ka projects_keys(3) manager_get_error[OF st])
qed

section \<open>Properties of the event lookups\<close>

lemma try_get_run:
  "fst (try_get mgr env kwargs event w) =
     (case fst (manager_get mgr env kwargs w) of
        Inl e \<Rightarrow> if e = ObjectDoesNotExist then Inr event else Inl e
      | Inr r \<Rightarrow> Inr (Some r))"
  "trace (snd (try_get mgr env kwargs event w)) = trace w @ [StoreGet kwargs]"
  "snd (try_get mgr env kwargs event w) = snd (manager_get mgr env kwargs w)"
  by (auto simp: try_get_def case_prod_beta manager_get_frame split: sum.splits)

text \<open>
  What \<^verbatim>\<open>from_event_id\<close> does on every identifier. When the identifier passes
  \<^verbatim>\<open>isdigit\<close> and \<^verbatim>\<open>int\<close> raises on it, that exception leaves the function before any
  lookup. Otherwise the identifier is looked up as a primary key first, and only when it
  passes \<^verbatim>\<open>isdigit\<close> and its integer is at most \<^verbatim>\<open>MAX_VALUE\<close>, with the project id among
  the filters when one is given. It is looked up as a hex event id only when a project id
  is given, the primary-key lookup was not made or raised \<^verbatim>\<open>ObjectDoesNotExist\<close>, and
  \<^verbatim>\<open>normalize_event_id\<close> accepts the identifier. \<^verbatim>\<open>ObjectDoesNotExist\<close> is swallowed at
  both lookups (any other exception of the store is raised); the result is the event of
  the first lookup that found one, \<^verbatim>\<open>None\<close> when none did.
\<close>

lemma from_event_id_run:
  fixes mgr :: manager and env :: env and id_or_event_id :: string and project_id :: scalar and w :: world
  defines "numeric \<equiv> isdigit id_or_event_id
                      \<and> (\<exists>n. py_int (SStr id_or_event_id) = Inr n \<and> n \<le> MAX_VALUE env)"
      and "pkq \<equiv> (if project_id = SNone then [(''id'', PScalar (SStr id_or_event_id))]
                   else [(''id'', PScalar (SStr id_or_event_id)), (''project_id'', PScalar project_id)])"
      and "hexq \<equiv> [(''event_id'', PScalar (SStr (the (normalize_event_id env id_or_event_id)))),
                    (''project_id'', PScalar project_id)]"
  defines "A \<equiv> manager_get mgr env pkq w"
  defines "hex \<equiv> project_id \<noteq> SNone \<and> (\<not> numeric \<or> fst A = Inl ObjectDoesNotExist)
                  \<and> (\<exists>e. normalize_event_id env id_or_event_id = Some e \<and> e \<noteq> [])"
      and "B \<equiv> manager_get mgr env hexq (if numeric then snd A else w)"
  shows "(\<forall>e. isdigit id_or_event_id \<and> py_int (SStr id_or_event_id) = Inl e \<longrightarrow>
            from_event_id mgr env id_or_event_id project_id w = (Inl e, w))
       \<and> (\<not> isdigit id_or_event_id \<or> (\<exists>n. py_int (SStr id_or_event_id) = Inr n) \<longrightarrow>
            events_since w (snd (from_event_id mgr env id_or_event_id project_id w))
              = (if numeric then [StoreGet pkq] else []) @ (if hex then [StoreGet hexq] else [])
            \<and> fst (from_event_id mgr env id_or_event_id project_id w)
              = (if numeric \<and> fst A \<noteq> Inl ObjectDoesNotExist
                 then (case fst A of Inl e \<Rightarrow> Inl e | Inr r \<Rightarrow> Inr (Some r))
                 else if hex
                 then (case fst B of
                         Inl e \<Rightarrow> if e = ObjectDoesNotExist then Inr None else Inl e
                       | Inr r \<Rightarrow> Inr (Some r))
                 else Inr None))"
proof -
  let ?F = "from_event_id mgr env id_or_event_id project_id w"
  let ?S = "if isdigit id_or_event_id then
              (case py_int (SStr id_or_event_id) of
                 Inl e \<Rightarrow> (Inl e, w)
               | Inr n \<Rightarrow>
                   if n \<le> MAX_VALUE env
                   then try_get mgr env (pk_kwargs id_or_event_id project_id) None w
                   else (Inr None, w))
            else (Inr None, w)"
  have pkq: "pk_kwargs id_or_event_id project_id = pkq"
    by (simp add: pk_kwargs_def pkq_def)
  have truthy: "event_id_truthy (normalize_event_id env id_or_event_id)
                  \<longleftrightarrow> (\<exists>e. normalize_event_id env id_or_event_id = Some e \<and> e \<noteq> [])"
    by (simp add: event_id_truthy_def split: option.splits)
  let ?P = "try_get mgr env pkq None w"
  have P: "fst ?P = (case fst A of Inl e \<Rightarrow> if e = ObjectDoesNotExist then Inr None else Inl e | Inr r \<Rightarrow> Inr (Some r))"
          "snd ?P = snd A" "trace (snd A) = trace w @ [StoreGet pkq]"
    by (simp_all add: try_get_run A_def manager_get_frame)
  have F: "?F = (case ?S of
                   (Inl e, w1) \<Rightarrow> (Inl e, w1)
                 | (Inr event, w1) \<Rightarrow>
                     if project_id \<noteq> SNone \<and> event = None
                        \<and> event_id_truthy (normalize_event_id env id_or_event_id)
                     then try_get mgr env hexq event w1
                     else (Inr event, w1))"
    unfolding from_event_id_def hexq_def Let_def ..
  have raise: "?F = (Inl e, w)"
    if "isdigit id_or_event_id \<and> py_int (SStr id_or_event_id) = Inl e" for e
  proof -
    have "?S = (Inl e, w)" using that by simp
    then show ?thesis by (simp only: F prod.case sum.case)
  qed
  have run: "events_since w (snd ?F)
              = (if numeric then [StoreGet pkq] else []) @ (if hex then [StoreGet hexq] else [])
            \<and> fst ?F
              = (if numeric \<and> fst A \<noteq> Inl ObjectDoesNotExist
                 then (case fst A of Inl e \<Rightarrow> Inl e | Inr r \<Rightarrow> Inr (Some r))
                 else if hex
                 then (case fst B of
                         Inl e \<Rightarrow> if e = ObjectDoesNotExist then Inr None else Inl e
                       | Inr r \<Rightarrow> Inr (Some r))
                 else Inr None)"
    if ok: "\<not> isdigit id_or_event_id \<or> (\<exists>n. py_int (SStr id_or_event_id) = Inr n)"
  proof (cases numeric)
    case False
    have S: "?S = (Inr None, w)"
    proof (cases "isdigit id_or_event_id")
      case d: True
      with ok obtain n where n: "py_int (SStr id_or_event_id) = Inr n" by blast
      with False d have "\<not> n \<le> MAX_VALUE env" by (simp add: numeric_def)
      with d n show ?thesis by simp
    next
      case d: False
      then show ?thesis by simp
    qed
    have F1: "?F = (if project_id \<noteq> SNone \<and> event_id_truthy (normalize_event_id env id_or_event_id)
                    then try_get mgr env hexq None w else (Inr None, w))"
      by (simp only: F S prod.case sum.case simp_thms)
    show ?thesis
    proof (cases hex)
      case True
      then have F2: "?F = try_get mgr env hexq None w"
        using False by (simp add: F1 hex_def truthy)
      show ?thesis
        using False True by (simp add: F2 try_get_run B_def events_since_def manager_get_frame)
    next
      case nh: False
      then have F2: "?F = (Inr None, w)"
        using False by (auto simp: F1 hex_def truthy)
      show ?thesis
        using False nh by (simp add: F2 events_since_def)
    qed
  next
    case True
    then obtain n where n: "isdigit id_or_event_id" "py_int (SStr id_or_event_id) = Inr n" "n \<le> MAX_VALUE env"
      by (auto simp: numeric_def)
    have S: "?S = ?P" using n by (simp add: pkq)
    have F0: "?F = (case fst ?P of
                Inl e \<Rightarrow> (Inl e, snd ?P)
              | Inr event \<Rightarrow>
                  if project_id \<noteq> SNone \<and> event = None \<and> event_id_truthy (normalize_event_id env id_or_event_id)
                  then try_get mgr env hexq event (snd ?P)
                  else (Inr event, snd ?P))"
      unfolding F S by (simp add: case_prod_beta split: sum.splits)
    show ?thesis
    proof (cases "fst A")
      case (Inr r)
      then have F2: "?F = (Inr (Some r), snd A)"
        using P by (simp add: F0)
      have "\<not> hex" using True Inr by (simp add: hex_def)
      then show ?thesis
        using True Inr P(3) by (simp add: F2 events_since_def)
    next
      case (Inl e)
      show ?thesis
      proof (cases "e = ObjectDoesNotExist")
        case ne: False
        then have F2: "?F = (Inl e, snd A)"
          using P Inl by (simp add: F0)
        have "\<not> hex" using True Inl ne by (simp add: hex_def)
        then show ?thesis
          using True Inl ne P(3) by (simp add: F2 events_since_def)
      next
        case dne: True
        show ?thesis
        proof (cases hex)
          case h: True
          then have F2: "?F = try_get mgr env hexq None (snd A)"
            using P Inl dne by (simp add: F0 hex_def truthy)
          show ?thesis
            using True Inl dne h P(3) by (simp add: F2 try_get_run B_def events_since_def manager_get_frame)
        next
          case nh: False
          then have F2: "?F = (Inr None, snd A)"
            using P Inl dne True by (auto simp: F0 hex_def truthy)
          show ?thesis
            using True Inl dne nh P(3) by (simp add: F2 events_since_def)
        qed
      qed
    qed
  qed
  from raise run show ?thesis by blast
qed

lemma digits_12:
  "isdigit ''12''" "py_int (SStr ''12'') = Inr 12" "\<not> isdigit hex_id"
  by code_simp+

text \<open>Event 12 of project 1 is found by its \<^verbatim>\<open>id\<close> and by its hex \<^verbatim>\<open>event_id\<close>; without a
  project id the hex id is not looked up, and under project 2 the event is not found.\<close>

lemma from_event_id_examples:
  "fst (from_event_id events env_events ''12'' (SInt 1) world0) = Inr (Some event12)
   \<and> events_since world0 (snd (from_event_id events env_events ''12'' (SInt 1) world0))
       = [StoreGet [(''id'', PScalar (SStr ''12'')), (''project_id'', PScalar (SInt 1))]]
   \<and> fst (from_event_id events env_events hex_id (SInt 1) world0) = Inr (Some event12)
   \<and> events_since world0 (snd (from_event_id events env_events hex_id (SInt 1) world0))
       = [StoreGet [(''event_id'', PScalar (SStr hex_id)), (''project_id'', PScalar (SInt 1))]]
   \<and> fst (from_event_id events env_events hex_id SNone world0) = Inr None
   \<and> events_since world0 (snd (from_event_id events env_events hex_id SNone world0)) = []
   \<and> fst (from_event_id events env_events ''12'' (SInt 2) world0) = Inr None
   \<and> events_since world0 (snd (from_event_id events env_events ''12'' (SInt 2) world0))
       = [StoreGet [(''id'', PScalar (SStr ''12'')), (''project_id'', PScalar (SInt 2))]]"
proof -
  have mg: "manager_get events env_events kwargs w = (event_store kwargs, emit (StoreGet kwargs) w)" for kwargs w
    by (simp add: manager_get_def events_def env_events_def Let_def split: sum.splits)
  have mx: "MAX_VALUE env_events = 9223372036854775807"
    by (simp add: env_events_def env_ok_def)
  have nz: "normalize_event_id env_events s = (if s = hex_id then Some s else None)" for s
    by (simp add: env_events_def)
  have hn: "hex_id \<noteq> []" "''12'' \<noteq> hex_id" by (simp_all add: hex_id_def)
  note d = digits_12[simplified]
  show ?thesis
    using from_event_id_run[where mgr = events and env = env_events and id_or_event_id = "''12''"
            and project_id = "SInt 1" and w = world0, THEN conjunct2]
          from_event_id_run[where mgr = events and env = env_events and id_or_event_id = hex_id
            and project_id = "SInt 1" and w = world0, THEN conjunct2]
          from_event_id_run[where mgr = events and env = env_events and id_or_event_id = hex_id
            and project_id = SNone and w = world0, THEN conjunct2]
          from_event_id_run[where mgr = events and env = env_events and id_or_event_id = "''12''"
            and project_id = "SInt 2" and w = world0, THEN conjunct2]
    by (simp add: mg mx nz hn d event_store_def)
qed

text \<open>
  C9. The identifier made of the one character SUPERSCRIPT TWO (code point 0xB2) passes
  \<^verbatim>\<open>isdigit\<close>, and \<^verbatim>\<open>int\<close> raises \<^verbatim>\<open>ValueError\<close> on it. The conversion stands in the
  condition of the \<^verbatim>\<open>if\<close>, outside both \<^verbatim>\<open>try\<close> blocks, so \<^verbatim>\<open>from_event_id\<close> raises
  \<^verbatim>\<open>ValueError\<close> there, with or without a project id and before any lookup, where its
  docstring promises \<^verbatim>\<open>None\<close> for an event found under neither scheme.
\<close>

theorem from_event_id_superscript_digit_raises:
  "isdigit [CHR 0xB2]
   \<and> py_int (SStr [CHR 0xB2]) = Inl (ValueError ''invalid literal for int()'')
   \<and> from_event_id events env_events [CHR 0xB2] SNone world0
       = (Inl (ValueError ''invalid literal for int()''), world0)
   \<and> from_event_id events env_events [CHR 0xB2] (SInt 1) world0
       = (Inl (ValueError ''invalid literal for int()''), world0)"
proof -
  have d: "isdigit [CHR 0xB2]" by code_simp
  have i: "int_of_text [CHR 0xB2] = Inl (ValueError ''invalid literal for int()'')" by code_simp
  show ?thesis
    by (simp add: from_event_id_def d i)
qed

lemma conditions_after_extend:
  assumes "case conditions of None \<Rightarrow> True | Some a \<Rightarrow> a < length h"
  shows "(case conditions_or_new conditions h of (c, h1) \<Rightarrow> extend_in_place c tc h1 ! c)
           = (case conditions of None \<Rightarrow> [] | Some a \<Rightarrow> h ! a) @ tc"
  using assms
  by (auto simp: conditions_or_new_def alloc_def extend_in_place_def nth_append split: option.splits)

text \<open>
  C8. Without a reference event both lookups return \<^verbatim>\<open>None\<close>. With one,
  \<^verbatim>\<open>get_next_event_id\<close> sends one query for the window from the event's time to now,
  ordered by ascending (timestamp, event id), whose conditions are the caller's followed
  by: timestamp not before the event's, and timestamp after the event's or event id above
  the event's. \<^verbatim>\<open>get_prev_event_id\<close> sends the mirrored query for the window from the epoch
  to the event's time, ordered descending. Each returns \<^verbatim>\<open>None\<close> when the answer has an
  \<^verbatim>\<open>error\<close> key or no row, and otherwise the project id and event id of the first row, both
  as text.
\<close>

theorem neighbor_event_lookup:
  fixes senv :: snuba_env and ev :: snuba_event and conditions :: "nat option"
    and filter_keys :: "(string \<times> int list) list option" and h :: heap
  defines "given \<equiv> (case conditions of None \<Rightarrow> [] | Some a \<Rightarrow> h ! a)"
  defines "next_result \<equiv> raw_query senv
             \<lparr>q_selected_columns = [''event_id'', ''project_id''], q_limit = 1,
              q_referrer = ''eventstore.get_next_or_prev_event_id'',
              q_start = ev_datetime ev, q_end = utcnow senv,
              q_conditions = given @
                [Cond ''timestamp'' ''>='' (ev_timestamp ev),
                 CondList [Cond ''timestamp'' ''>'' (ev_timestamp ev),
                           Cond ''event_id'' ''>'' (ev_event_id ev)]],
              q_filter_keys = filter_keys, q_orderby = [''timestamp'', ''event_id'']\<rparr>"
      and "prev_result \<equiv> raw_query senv
             \<lparr>q_selected_columns = [''event_id'', ''project_id''], q_limit = 1,
              q_referrer = ''eventstore.get_next_or_prev_event_id'',
              q_start = 0, q_end = ev_datetime ev,
              q_conditions = given @
                [Cond ''timestamp'' ''<='' (ev_timestamp ev),
                 CondList [Cond ''timestamp'' ''<'' (ev_timestamp ev),
                           Cond ''event_id'' ''<'' (ev_event_id ev)]],
              q_filter_keys = filter_keys, q_orderby = [''-timestamp'', ''-event_id'']\<rparr>"
  assumes valid: "case conditions of None \<Rightarrow> True | Some a \<Rightarrow> a < length h"
  shows "fst (get_next_event_id senv None conditions filter_keys h) = None
       \<and> fst (get_prev_event_id senv None conditions filter_keys h) = None
       \<and> fst (get_next_event_id senv (Some ev) conditions filter_keys h)
           = (if res_error next_result \<noteq> None \<or> res_data next_result = [] then None
              else Some (text_type (row_project_id (hd (res_data next_result))),
                         text_type (row_event_id (hd (res_data next_result)))))
       \<and> fst (get_prev_event_id senv (Some ev) conditions filter_keys h)
           = (if res_error prev_result \<noteq> None \<or> res_data prev_result = [] then None
              else Some (text_type (row_project_id (hd (res_data prev_result))),
                         text_type (row_event_id (hd (res_data prev_result)))))"
proof -
  have n: "fst (get_next_event_id senv (Some ev) conditions filter_keys h)
             = get_next_or_prev_event_id senv (ev_datetime ev) (utcnow senv)
                 (given @ next_time_condition ev) filter_keys [''timestamp'', ''event_id'']"
    using conditions_after_extend[OF valid, of "next_time_condition ev"]
    by (simp add: get_next_event_id_def case_prod_beta Let_def given_def)
  have p: "fst (get_prev_event_id senv (Some ev) conditions filter_keys h)
             = get_next_or_prev_event_id senv 0 (ev_datetime ev)
                 (given @ prev_time_condition ev) filter_keys [''-timestamp'', ''-event_id'']"
    using conditions_after_extend[OF valid, of "prev_time_condition ev"]
    by (simp add: get_prev_event_id_def case_prod_beta Let_def given_def)
  have e: "get_next_or_prev_event_id senv st en cs filter_keys ob =
            (let r = raw_query senv
                 \<lparr>q_selected_columns = [''event_id'', ''project_id''], q_limit = 1,
                  q_referrer = ''eventstore.get_next_or_prev_event_id'',
                  q_start = st, q_end = en, q_conditions = cs,
                  q_filter_keys = filter_keys, q_orderby = ob\<rparr>
             in if res_error r \<noteq> None \<or> res_data r = [] then None
                else Some (text_type (row_project_id (hd (res_data r))), text_type (row_event_id (hd (res_data r)))))"
    for st en cs ob
    by (simp add: get_next_or_prev_event_id_def Let_def split: list.splits)
  have n0: "fst (get_next_event_id senv None conditions filter_keys h) = None"
    by (simp add: get_next_event_id_def)
  have p0: "fst (get_prev_event_id senv None conditions filter_keys h) = None"
    by (simp add: get_prev_event_id_def)
  show ?thesis
    unfolding n p n0 p0 e next_result_def prev_result_def next_time_condition_def prev_time_condition_def Let_def
    by simp
qed

lemma show_int_1: "show_int 1 = ''1''"
  by code_simp

theorem neighbor_event_lookup_witness:
  "(0::nat) < length [[Cond ''environment'' ''='' (SStr ''prod'')]]
   \<and> fst (get_next_event_id one_row_backend (Some event_t2) (Some 0) None
            [[Cond ''environment'' ''='' (SStr ''prod'')]])
       = Some (''1'', ''cccccccccccccccccccccccccccccccc'')
   \<and> fst (get_prev_event_id one_row_backend (Some event_t2) (Some 0) None
            [[Cond ''environment'' ''='' (SStr ''prod'')]])
       = Some (''1'', ''cccccccccccccccccccccccccccccccc'')
   \<and> fst (get_next_event_id one_row_backend None (Some 0) None
            [[Cond ''environment'' ''='' (SStr ''prod'')]]) = None"
proof -
  have v: "case Some (0::nat) of None \<Rightarrow> True
           | Some a \<Rightarrow> a < length [[Cond ''environment'' ''='' (SStr ''prod'')]]"
    by simp
  show ?thesis
    using neighbor_event_lookup[where senv = one_row_backend and ev = event_t2 and conditions = "Some 0"
            and filter_keys = None and h = "[[Cond ''environment'' ''='' (SStr ''prod'')]]", OF v]
    by (simp add: one_row_backend_def show_int_1)
qed

text \<open>
  C10, as stated, fails for an empty list: \<^verbatim>\<open>conditions or []\<close> takes a new list when the
  caller's list is empty, so the caller's list stays empty.
\<close>

theorem empty_conditions_list_not_extended:
  "snd (get_next_event_id one_row_backend (Some event_t2) (Some 0) None [[]]) ! 0 = []
   \<and> snd (get_prev_event_id one_row_backend (Some event_t2) (Some 0) None [[]]) ! 0 = []"
  by (simp add: get_next_event_id_def get_prev_event_id_def conditions_or_new_def alloc_def extend_in_place_def)

text \<open>
  C10, amended. Called with a reference event and a non-empty conditions list, each
  lookup appends its two time-window conditions to that list in place, and changes no
  other list; called with an empty list, it leaves all the caller's lists as they were
  and works on a new one.
\<close>

theorem conditions_list_extended_in_place:
  assumes "a < length h"
  shows "(h ! a \<noteq> [] \<longrightarrow>
            snd (get_next_event_id senv (Some ev) (Some a) filter_keys h) = h[a := h ! a @ next_time_condition ev]
          \<and> snd (get_prev_event_id senv (Some ev) (Some a) filter_keys h) = h[a := h ! a @ prev_time_condition ev]
          \<and> snd (get_next_event_id senv (Some ev) (Some a) filter_keys h) ! a = h ! a @ next_time_condition ev
          \<and> snd (get_prev_event_id senv (Some ev) (Some a) filter_keys h) ! a = h ! a @ prev_time_condition ev)
       \<and> (h ! a = [] \<longrightarrow>
            snd (get_next_event_id senv (Some ev) (Some a) filter_keys h) = h @ [next_time_condition ev]
          \<and> snd (get_prev_event_id senv (Some ev) (Some a) filter_keys h) = h @ [prev_time_condition ev])"
  using assms
  by (simp add: get_next_event_id_def get_prev_event_id_def conditions_or_new_def alloc_def extend_in_place_def)

theorem conditions_list_extended_in_place_witness:
  "(0::nat) < length [[Cond ''environment'' ''='' (SStr ''prod'')]]
   \<and> snd (get_next_event_id one_row_backend (Some event_t2) (Some 0) None
            [[Cond ''environment'' ''='' (SStr ''prod'')]]) ! 0
       = [Cond ''environment'' ''='' (SStr ''prod''),
          Cond ''timestamp'' ''>='' (SStr ''2019-05-01T00:00:02''),
          CondList [Cond ''timestamp'' ''>'' (SStr ''2019-05-01T00:00:02''),
                    Cond ''event_id'' ''>'' (SStr ''bbbbbbbbbbbbbbbbbbbbbbbbbbbbbbbb'')]]"
proof -
  have l: "(0::nat) < length [[Cond ''environment'' ''='' (SStr ''prod'')]]" by simp
  show ?thesis
    using conditions_list_extended_in_place[OF l, of one_row_backend event_t2 None]
    by (simp add: next_time_condition_def event_t2_def)
qed

end
